theory Spec2Isabelle
  imports Complex_Main "HOL-Library.Sublist" "HOL-Library.Char_ord" "HOL-Library.List_Lexorder"
    "HOL-Library.Product_Lexorder" "HOL-Library.Multiset"
begin

section \<open>Volunteer activity analysis: the data model\<close>

text \<open>
  The development embeds \<^verbatim>\<open>src/volunteer_activity.py\<close>. A pandas data frame is a list
  of rows; a missing value (NaN, NaT) of a nullable column is \<open>None\<close>. Hours are exact
  real numbers in place of binary floating point.
\<close>

subsection \<open>Timestamps\<close>

text \<open>
  A pandas timestamp is an integer count from the epoch 1970-01-01 00:00:00; the format
  \<^verbatim>\<open>%d/%m/%Y %I:%M:%S %p\<close> has whole seconds, so the count is in seconds here.
  The calendar conversions are those of the proleptic Gregorian calendar.
\<close>

type_synonym timestamp = int

definition days_from_civil :: "int \<Rightarrow> int \<Rightarrow> int \<Rightarrow> int" where
  "days_from_civil y m d =
     (let y' = (if m \<le> 2 then y - 1 else y);
          era = y' div 400;
          yoe = y' - era * 400;
          doy = (153 * (if m > 2 then m - 3 else m + 9) + 2) div 5 + d - 1;
          doe = yoe * 365 + yoe div 4 - yoe div 100 + doy
      in era * 146097 + doe - 719468)"

definition Timestamp :: "int \<Rightarrow> int \<Rightarrow> int \<Rightarrow> timestamp" where
  \<comment> \<open>\<^verbatim>\<open>pd.Timestamp(year=, month=, day=)\<close>: midnight at the start of that day\<close>
  "Timestamp y m d = days_from_civil y m d * 86400"

definition civil_year_month :: "int \<Rightarrow> int \<times> int" where
  "civil_year_month days =
     (let z = days + 719468;
          era = z div 146097;
          doe = z - era * 146097;
          yoe = (doe - doe div 1460 + doe div 36524 - doe div 146096) div 365;
          doy = doe - (365 * yoe + yoe div 4 - yoe div 100);
          mp = (5 * doy + 2) div 153;
          m = (if mp < 10 then mp + 3 else mp - 9)
      in (if m \<le> 2 then yoe + era * 400 + 1 else yoe + era * 400, m))"

definition dt_year :: "timestamp \<Rightarrow> int" where
  "dt_year t = fst (civil_year_month (t div 86400))"

definition dt_month :: "timestamp \<Rightarrow> int" where
  "dt_month t = snd (civil_year_month (t div 86400))"

definition dt_quarter :: "timestamp \<Rightarrow> int" where
  "dt_quarter t = (dt_month t - 1) div 3 + 1"

definition timedelta_days :: "timestamp \<Rightarrow> timestamp \<Rightarrow> int" where
  \<comment> \<open>\<^verbatim>\<open>(a - b).days\<close>: the whole-day component of a time difference, rounded down\<close>
  "timedelta_days a b = (a - b) div 86400"

definition MONTH_ORDER :: "string list" where
  "MONTH_ORDER = [''January'', ''February'', ''March'', ''April'', ''May'', ''June'', ''July'',
     ''August'', ''September'', ''October'', ''November'', ''December'']"

definition dt_month_name :: "timestamp \<Rightarrow> string" where
  "dt_month_name t = MONTH_ORDER ! nat (dt_month t - 1)"

definition SEASONS :: "int \<Rightarrow> string option" where
  "SEASONS q = (if q = 1 then Some ''Winter'' else if q = 2 then Some ''Spring''
     else if q = 3 then Some ''Summer'' else if q = 4 then Some ''Autumn'' else None)"

subsection \<open>Cleaned shift records\<close>

text \<open>
  One row of the cleaned table that \<^verbatim>\<open>load_and_clean_hours\<close> returns. The columns
  \<^verbatim>\<open>DayName\<close> and \<^verbatim>\<open>Week\<close> are carried by the source and read by no metric; they
  are left out. The volunteer id, the category, the subcategory, the season and the hours
  come from the file as they are and may be missing.
\<close>

record shift =
  Volunteer_ID :: "nat option"
  DateVolunteered :: timestamp
  Year :: int
  Month :: string
  Season :: "string option"
  Category :: "string option"
  SubCategory :: "string option"
  Hours :: "real option"

subsection \<open>Group-by helpers\<close>

definition unique_sorted :: "'a::linorder list \<Rightarrow> 'a list" where
  \<comment> \<open>\<^verbatim>\<open>sorted(s.unique())\<close>, also the key order of a \<^verbatim>\<open>groupby\<close>\<close>
  "unique_sorted xs = sort (remdups xs)"

definition group_keys :: "('r \<Rightarrow> 'k::linorder option) \<Rightarrow> 'r list \<Rightarrow> 'k list" where
  \<comment> \<open>the keys of \<^verbatim>\<open>df.groupby(col)\<close>: rows with a missing key are dropped\<close>
  "group_keys key df = unique_sorted (List.map_filter key df)"

definition group_rows :: "('r \<Rightarrow> 'k option) \<Rightarrow> 'k \<Rightarrow> 'r list \<Rightarrow> 'r list" where
  "group_rows key k df = filter (\<lambda>r. key r = Some k) df"

definition hours_sum :: "shift list \<Rightarrow> real" where
  \<comment> \<open>\<^verbatim>\<open>["Hours"].sum()\<close>: missing values are skipped\<close>
  "hours_sum df = sum_list (List.map_filter Hours df)"

definition nunique :: "shift list \<Rightarrow> nat" where
  \<comment> \<open>\<^verbatim>\<open>["Volunteer ID"].nunique()\<close>: missing ids are not counted\<close>
  "nunique df = length (remdups (List.map_filter Volunteer_ID df))"

subsection \<open>Floating-point results of a division\<close>

text \<open>
  Dividing by zero raises nothing in pandas: the quotient is an infinity, or NaN for
  \<open>0 / 0\<close>. A quotient column therefore carries these three values beside the ordinary ones.
\<close>

datatype fval = Fin real | PosInf | NegInf | NaN

definition fdiv :: "real \<Rightarrow> real \<Rightarrow> fval" where
  "fdiv a b = (if b \<noteq> 0 then Fin (a / b)
     else if a = 0 then NaN else if 0 < a then PosInf else NegInf)"

definition fscale :: "fval \<Rightarrow> real \<Rightarrow> fval" where
  \<comment> \<open>multiplication by a positive constant\<close>
  "fscale x c = (case x of Fin a \<Rightarrow> Fin (a * c) | other \<Rightarrow> other)"

definition series_mean :: "real list \<Rightarrow> fval" where
  \<comment> \<open>\<^verbatim>\<open>s.mean()\<close>: NaN on an empty series\<close>
  "series_mean xs = (if xs = [] then NaN else Fin (sum_list xs / real (length xs)))"

definition fillna0 :: "fval \<Rightarrow> fval" where
  \<comment> \<open>\<^verbatim>\<open>fillna(0)\<close> on one value: only NaN is replaced, an infinity stays\<close>
  "fillna0 x = (if x = NaN then Fin 0 else x)"

section \<open>Rolling retention\<close>

record retention_row =
  ret_Year :: int
  ret_Total_Volunteers :: nat
  ret_Active_Volunteers :: nat
  ret_Inactive_Volunteers :: nat
  ret_Active_pct :: real
  ret_Inactive_pct :: real

definition threshold_days :: int where
  "threshold_days = 180"

definition not_training :: "shift list \<Rightarrow> shift list" where
  \<comment> \<open>\<^verbatim>\<open>df[df["Category"] != "Training"]\<close>: a missing category is kept\<close>
  "not_training df = filter (\<lambda>r. Category r \<noteq> Some ''Training'') df"

definition year_rows :: "int \<Rightarrow> shift list \<Rightarrow> shift list" where
  "year_rows yr df = filter (\<lambda>r. Year r = yr) df"

definition last_shift_of :: "shift list \<Rightarrow> (nat \<times> timestamp) list" where
  \<comment> \<open>\<^verbatim>\<open>df_y.groupby("Volunteer ID")["DateVolunteered"].max()\<close>\<close>
  "last_shift_of df_y =
     map (\<lambda>v. (v, fold max (map DateVolunteered (group_rows Volunteer_ID v df_y))
                     (DateVolunteered (hd (group_rows Volunteer_ID v df_y)))))
       (group_keys Volunteer_ID df_y)"

definition retention_year :: "shift list \<Rightarrow> int \<Rightarrow> retention_row list" where
  "retention_year df_nt yr =
     (let df_y = year_rows yr df_nt in
      if df_y = [] then []
      else
        let year_end = Timestamp yr 12 31;
            last_shift = last_shift_of df_y;
            inactivity_days = map (\<lambda>(v, t). (v, timedelta_days year_end t)) last_shift;
            inactive = map (\<lambda>(v, d). (v, d > threshold_days)) inactivity_days;
            total = length last_shift;
            n_active = length (filter (\<lambda>(v, b). \<not> b) inactive);
            n_inactive = length (filter (\<lambda>(v, b). b) inactive)
        in [\<lparr>ret_Year = yr,
             ret_Total_Volunteers = total,
             ret_Active_Volunteers = n_active,
             ret_Inactive_Volunteers = n_inactive,
             ret_Active_pct = (if total \<noteq> 0 then real n_active / real total * 100 else 0),
             ret_Inactive_pct = (if total \<noteq> 0 then real n_inactive / real total * 100 else 0)\<rparr>])"

definition compute_retention_rolling_6mo :: "shift list \<Rightarrow> retention_row list" where
  "compute_retention_rolling_6mo df =
     (let df_nt = not_training df in
      concat (map (retention_year df_nt) (unique_sorted (map Year df_nt))))"

section \<open>Top-20% concentration\<close>

record top20_row =
  t20_Year :: int
  t20_Total_Volunteers :: nat
  t20_Top_Volunteers :: nat
  t20_Total_Hours :: real
  t20_Top_Hours :: real
  t20_Top_Share_pct :: fval
  t20_Mean_Hours_Top :: fval
  t20_Mean_Hours_Other :: fval

definition volunteer_totals :: "shift list \<Rightarrow> (nat \<times> real) list" where
  \<comment> \<open>\<^verbatim>\<open>df_y.groupby("Volunteer ID")["Hours"].sum()\<close>, in key order\<close>
  "volunteer_totals df_y =
     map (\<lambda>v. (v, hours_sum (group_rows Volunteer_ID v df_y))) (group_keys Volunteer_ID df_y)"

definition sort_values_desc :: "(nat \<times> real) list \<Rightarrow> (nat \<times> real) list" where
  \<comment> \<open>\<^verbatim>\<open>sort_values(ascending=False)\<close>. The order pandas gives to equal totals is not
      fixed; the sort here keeps them in key order. Every reported figure depends on the
      sorted values only.\<close>
  "sort_values_desc s = sort_key (\<lambda>(v, h). - h) s"

definition top20_year :: "shift list \<Rightarrow> int \<Rightarrow> top20_row list" where
  "top20_year df yr =
     (let df_y = year_rows yr df;
          totals = sort_values_desc (volunteer_totals df_y)
      in if totals = [] then []
         else
           let n_vol = length totals;
               top_n = nat \<lceil>0.20 * real n_vol\<rceil>;
               top20 = take top_n totals;
               other80 = drop top_n totals
           in [\<lparr>t20_Year = yr,
                t20_Total_Volunteers = n_vol,
                t20_Top_Volunteers = top_n,
                t20_Total_Hours = sum_list (map snd totals),
                t20_Top_Hours = sum_list (map snd top20),
                t20_Top_Share_pct =
                  fscale (fdiv (sum_list (map snd top20)) (sum_list (map snd totals))) 100,
                t20_Mean_Hours_Top = series_mean (map snd top20),
                t20_Mean_Hours_Other =
                  (if length other80 \<noteq> 0 then series_mean (map snd other80) else Fin 0)\<rparr>])"

definition compute_top20_engagement :: "shift list \<Rightarrow> top20_row list" where
  "compute_top20_engagement df = concat (map (top20_year df) (unique_sorted (map Year df)))"

section \<open>Trends: growth decomposition, seasonal and monthly averages\<close>

record growth_row =
  g_Year :: int
  g_ActiveVolunteers :: int
  g_NewVolunteers :: int
  g_ReturningVolunteers :: int
  g_pct_New :: fval
  g_pct_Returning :: fval

definition active_by_year :: "shift list \<Rightarrow> (int \<times> int) list" where
  \<comment> \<open>\<^verbatim>\<open>df_nt.groupby("Year")["Volunteer ID"].nunique()\<close>\<close>
  "active_by_year df_nt =
     map (\<lambda>y. (y, int (nunique (year_rows y df_nt)))) (unique_sorted (map Year df_nt))"

definition first_year :: "shift list \<Rightarrow> (nat \<times> int) list" where
  \<comment> \<open>\<^verbatim>\<open>df_nt.groupby("Volunteer ID")["Year"].min()\<close>\<close>
  "first_year df_nt =
     map (\<lambda>v. (v, fold min (map Year (group_rows Volunteer_ID v df_nt))
                     (Year (hd (group_rows Volunteer_ID v df_nt)))))
       (group_keys Volunteer_ID df_nt)"

definition value_counts_sorted :: "int list \<Rightarrow> (int \<times> int) list" where
  \<comment> \<open>\<^verbatim>\<open>s.value_counts().sort_index()\<close>\<close>
  "value_counts_sorted xs = map (\<lambda>y. (y, int (count_list xs y))) (unique_sorted xs)"

definition reindex_fill :: "(int \<times> int) list \<Rightarrow> int list \<Rightarrow> int \<Rightarrow> (int \<times> int) list" where
  \<comment> \<open>\<^verbatim>\<open>s.reindex(index, fill_value=)\<close>\<close>
  "reindex_fill s index fill_value =
     map (\<lambda>y. (y, case map_of s y of Some c \<Rightarrow> c | None \<Rightarrow> fill_value)) index"

definition growth_explainer_of :: "shift list \<Rightarrow> growth_row list" where
  "growth_explainer_of df =
     (let df_nt = not_training df;
          active = active_by_year df_nt;
          new_by_year = value_counts_sorted (map snd (first_year df_nt));
          aligned_new = reindex_fill new_by_year (map fst active) 0;
          returning_by_year = map (\<lambda>((y, a), (y', n)). (y, a - n)) (zip active aligned_new)
      in map (\<lambda>((y, a), (y', n), (y'', r)).
                \<lparr>g_Year = y, g_ActiveVolunteers = a, g_NewVolunteers = n,
                 g_ReturningVolunteers = r,
                 g_pct_New = fscale (fdiv (real_of_int n) (real_of_int a)) 100,
                 g_pct_Returning = fscale (fdiv (real_of_int r) (real_of_int a)) 100\<rparr>)
           (zip active (zip aligned_new returning_by_year)))"

text \<open>A pivoted table: row labels (years), column labels, and the values row by row.\<close>

record 'a pivot =
  pv_index :: "int list"
  pv_columns :: "string list"
  pv_values :: "'a list list"

definition year_key :: "(shift \<Rightarrow> string option) \<Rightarrow> shift \<Rightarrow> (int \<times> string) option" where
  "year_key col r = map_option (\<lambda>c. (Year r, c)) (col r)"

definition unstack_fill ::
    "(shift \<Rightarrow> string option) \<Rightarrow> (shift list \<Rightarrow> 'a) \<Rightarrow> 'a \<Rightarrow> shift list \<Rightarrow> 'a pivot" where
  \<comment> \<open>\<^verbatim>\<open>df.groupby(["Year", col])[...].agg().unstack(fill_value=)\<close>\<close>
  "unstack_fill col agg fill_value df =
     (let keys = group_keys (year_key col) df;
          index = unique_sorted (map fst keys);
          columns = unique_sorted (map snd keys)
      in \<lparr>pv_index = index, pv_columns = columns,
          pv_values = map (\<lambda>y. map (\<lambda>c. if (y, c) \<in> set keys
                                        then agg (group_rows (year_key col) (y, c) df)
                                        else fill_value) columns) index\<rparr>)"

definition pivot_div :: "real pivot \<Rightarrow> nat pivot \<Rightarrow> fval pivot" where
  \<comment> \<open>element-wise division of two tables with the same labels\<close>
  "pivot_div h v =
     \<lparr>pv_index = pv_index h, pv_columns = pv_columns h,
      pv_values = map2 (map2 (\<lambda>a n. fdiv a (real n))) (pv_values h) (pv_values v)\<rparr>"

definition reindex_columns :: "fval pivot \<Rightarrow> string list \<Rightarrow> fval pivot" where
  \<comment> \<open>\<^verbatim>\<open>reindex(columns=)\<close>: a column the table lacks is filled with NaN\<close>
  "reindex_columns p cols =
     \<lparr>pv_index = pv_index p, pv_columns = cols,
      pv_values = map (\<lambda>row. map (\<lambda>c. case map_of (zip (pv_columns p) row) c of
                                         Some x \<Rightarrow> x | None \<Rightarrow> NaN) cols) (pv_values p)\<rparr>"

definition pivot_fillna0 :: "fval pivot \<Rightarrow> fval pivot" where
  "pivot_fillna0 p = p\<lparr>pv_values := map (map fillna0) (pv_values p)\<rparr>"

definition season_avg_of :: "shift list \<Rightarrow> fval pivot" where
  "season_avg_of df =
     (let season_year_hours = unstack_fill Season hours_sum 0 df;
          season_year_vol = unstack_fill Season nunique 0 df
      in pivot_fillna0 (pivot_div season_year_hours season_year_vol))"

definition month_avg_of :: "shift list \<Rightarrow> fval pivot" where
  "month_avg_of df =
     (let month_year_hours = unstack_fill (\<lambda>r. Some (Month r)) hours_sum 0 df;
          month_year_vol = unstack_fill (\<lambda>r. Some (Month r)) nunique 0 df
      in pivot_fillna0 (reindex_columns (pivot_div month_year_hours month_year_vol) MONTH_ORDER))"

definition compute_trends :: "shift list \<Rightarrow> growth_row list \<times> fval pivot \<times> fval pivot" where
  "compute_trends df = (growth_explainer_of df, season_avg_of df, month_avg_of df)"

definition pivot_at :: "'a pivot \<Rightarrow> int \<Rightarrow> string \<Rightarrow> 'a option" where
  \<comment> \<open>the cell at a row label and a column label, if the table has both\<close>
  "pivot_at p y c =
     (case map_of (zip (pv_index p) (pv_values p)) y of
        None \<Rightarrow> None
      | Some row \<Rightarrow> map_of (zip (pv_columns p) row) c)"

subsection \<open>The retention rule, stated on sets\<close>

definition qualifying :: "shift list \<Rightarrow> int \<Rightarrow> shift set" where
  \<comment> \<open>the records of year \<open>y\<close> whose category is not Training\<close>
  "qualifying df y = {r \<in> set df. Category r \<noteq> Some ''Training'' \<and> Year r = y}"

definition volunteers_of :: "shift set \<Rightarrow> nat set" where
  "volunteers_of R = {v. \<exists>r \<in> R. Volunteer_ID r = Some v}"

definition latest_shift :: "shift set \<Rightarrow> nat \<Rightarrow> timestamp" where
  "latest_shift R v = Max (DateVolunteered ` {r \<in> R. Volunteer_ID r = Some v})"

definition inactivity_age :: "shift set \<Rightarrow> int \<Rightarrow> nat \<Rightarrow> int" where
  \<comment> \<open>December 31 of the year minus the latest shift, in whole days\<close>
  "inactivity_age R y v = timedelta_days (Timestamp y 12 31) (latest_shift R v)"

section \<open>Loading and cleaning the shift log\<close>

text \<open>
  One row of the shift log as \<^verbatim>\<open>pd.read_csv\<close> returns it; an empty cell is missing.
\<close>

record raw_shift =
  DatabaseUserId :: "nat option"
  raw_DateVolunteered :: "string option"
  HoursWorked :: "real option"
  FinalCategory :: "string option"
  EventSubcategory :: "string option"

definition replace_category :: "string option \<Rightarrow> string option" where
  \<comment> \<open>\<^verbatim>\<open>replace({"Market/Ware house Operation": "Market/Warehouse"})\<close> on one value\<close>
  "replace_category c =
     (if c = Some ''Market/Ware house Operation'' then Some ''Market/Warehouse'' else c)"

definition hours_at_most_16 :: "real option \<Rightarrow> bool" where
  \<comment> \<open>\<^verbatim>\<open>df["Hours"] <= 16\<close> on one value: false for a missing value\<close>
  "hours_at_most_16 h = (case h of None \<Rightarrow> False | Some x \<Rightarrow> x \<le> 16)"

text \<open>
  \<^verbatim>\<open>pd.to_datetime(..., format="%d/%m/%Y %I:%M:%S %p", errors="coerce")\<close> is the
  library's parser; it is a parameter \<open>to_datetime\<close> of the model, \<open>None\<close> standing for NaT.
  A missing cell parses to NaT.
\<close>

definition load_and_clean_hours ::
    "(string \<Rightarrow> timestamp option) \<Rightarrow> raw_shift list \<Rightarrow> shift list" where
  "load_and_clean_hours to_datetime raw =
     (let df = map (\<lambda>r. (Option.bind (raw_DateVolunteered r) to_datetime, r)) raw;
          df = filter (\<lambda>(d, r). d \<noteq> None) df;
          df = List.map_filter (\<lambda>(d, r). map_option (\<lambda>t.
                 \<lparr>Volunteer_ID = DatabaseUserId r, DateVolunteered = t, Year = dt_year t,
                  Month = dt_month_name t, Season = SEASONS (dt_quarter t),
                  Category = FinalCategory r, SubCategory = EventSubcategory r,
                  Hours = HoursWorked r\<rparr>) d) df;
          df = map (\<lambda>r. r\<lparr>Category := replace_category (Category r)\<rparr>) df;
          df = filter (\<lambda>r. Year r \<noteq> 2016) df;
          df = filter (\<lambda>r. hours_at_most_16 (Hours r)) df;
          df = filter (\<lambda>r. SubCategory r \<noteq> Some ''Holiday & Seasonal Meal Programs'') df
      in df)"

subsection \<open>The cleaning steps as separate frame operations\<close>

text \<open>
  To apply the steps in another order, the frame must be able to hold a row whose date
  failed to parse: its derived year is then missing too, and pandas' \<^verbatim>\<open>!=\<close> holds of a
  missing value, so such a row passes the year filter.
\<close>

record frame_row =
  fr_Volunteer_ID :: "nat option"
  fr_DateVolunteered :: "timestamp option"
  fr_Year :: "int option"
  fr_Category :: "string option"
  fr_SubCategory :: "string option"
  fr_Hours :: "real option"

datatype step =
  DropNullDates | DropYear2016 | DropLongHours | DropExcludedSubcategory | RenameCategory

definition parse_frame :: "(string \<Rightarrow> timestamp option) \<Rightarrow> raw_shift list \<Rightarrow> frame_row list" where
  "parse_frame to_datetime raw =
     map (\<lambda>r. let d = Option.bind (raw_DateVolunteered r) to_datetime in
               \<lparr>fr_Volunteer_ID = DatabaseUserId r, fr_DateVolunteered = d,
                fr_Year = map_option dt_year d, fr_Category = FinalCategory r,
                fr_SubCategory = EventSubcategory r, fr_Hours = HoursWorked r\<rparr>) raw"

fun apply_step :: "step \<Rightarrow> frame_row list \<Rightarrow> frame_row list" where
  "apply_step DropNullDates df = filter (\<lambda>r. fr_DateVolunteered r \<noteq> None) df"
| "apply_step DropYear2016 df = filter (\<lambda>r. fr_Year r \<noteq> Some 2016) df"
| "apply_step DropLongHours df = filter (\<lambda>r. hours_at_most_16 (fr_Hours r)) df"
| "apply_step DropExcludedSubcategory df =
     filter (\<lambda>r. fr_SubCategory r \<noteq> Some ''Holiday & Seasonal Meal Programs'') df"
| "apply_step RenameCategory df =
     map (\<lambda>r. r\<lparr>fr_Category := replace_category (fr_Category r)\<rparr>) df"

definition finish_frame :: "frame_row list \<Rightarrow> shift list" where
  \<comment> \<open>the cleaned table of a frame whose dates are all present\<close>
  "finish_frame df =
     List.map_filter (\<lambda>r. map_option (\<lambda>t.
         \<lparr>Volunteer_ID = fr_Volunteer_ID r, DateVolunteered = t, Year = dt_year t,
          Month = dt_month_name t, Season = SEASONS (dt_quarter t),
          Category = fr_Category r, SubCategory = fr_SubCategory r,
          Hours = fr_Hours r\<rparr>) (fr_DateVolunteered r)) df"

definition clean_in_order ::
    "step list \<Rightarrow> (string \<Rightarrow> timestamp option) \<Rightarrow> raw_shift list \<Rightarrow> shift list" where
  "clean_in_order steps to_datetime raw =
     finish_frame (fold apply_step steps (parse_frame to_datetime raw))"

definition implemented_order :: "step list" where
  "implemented_order =
     [DropNullDates, RenameCategory, DropYear2016, DropLongHours, DropExcludedSubcategory]"

section \<open>Volunteer profiles\<close>

subsection \<open>Python string operations, on ASCII text\<close>

definition is_space :: "char \<Rightarrow> bool" where
  "is_space c \<longleftrightarrow> c \<in> set [CHR 0x09, CHR 0x0A, CHR 0x0B, CHR 0x0C, CHR 0x0D,
                              CHR 0x1C, CHR 0x1D, CHR 0x1E, CHR 0x1F, CHR 0x20]"

definition is_upper :: "char \<Rightarrow> bool" where
  "is_upper c \<longleftrightarrow> CHR ''A'' \<le> c \<and> c \<le> CHR ''Z''"

definition is_lower :: "char \<Rightarrow> bool" where
  "is_lower c \<longleftrightarrow> CHR ''a'' \<le> c \<and> c \<le> CHR ''z''"

definition to_lower :: "char \<Rightarrow> char" where
  "to_lower c = (if is_upper c then char_of (of_char c + (32::nat)) else c)"

definition to_upper :: "char \<Rightarrow> char" where
  "to_upper c = (if is_lower c then char_of (of_char c - (32::nat)) else c)"

definition str_lower :: "string \<Rightarrow> string" where
  "str_lower s = map to_lower s"

definition str_upper :: "string \<Rightarrow> string" where
  "str_upper s = map to_upper s"

definition str_strip :: "string \<Rightarrow> string" where
  "str_strip s = rev (dropWhile is_space (rev (dropWhile is_space s)))"

fun str_contains :: "string \<Rightarrow> string \<Rightarrow> bool" where
  \<comment> \<open>\<^verbatim>\<open>sub in s\<close>\<close>
  "str_contains sub [] = (sub = [])"
| "str_contains sub (c # cs) = (prefix sub (c # cs) \<or> str_contains sub cs)"

fun str_replace :: "string \<Rightarrow> string \<Rightarrow> string \<Rightarrow> string" where
  \<comment> \<open>\<^verbatim>\<open>s.replace(old, new)\<close> for a non-empty \<open>old\<close>: every occurrence, left to right\<close>
  "str_replace old new [] = []"
| "str_replace old new (c # cs) =
     (if prefix old (c # cs) then new @ str_replace old new (drop (length old - 1) cs)
      else c # str_replace old new cs)"

fun title_from :: "bool \<Rightarrow> string \<Rightarrow> string" where
  \<comment> \<open>the flag says whether the previous character was a letter\<close>
  "title_from prev [] = []"
| "title_from prev (c # cs) =
     (if is_lower c then (if prev then c else to_upper c) # title_from True cs
      else if is_upper c then (if prev then to_lower c else c) # title_from True cs
      else c # title_from False cs)"

definition str_title :: "string \<Rightarrow> string" where
  "str_title s = title_from False s"

fun nat_digits :: "nat \<Rightarrow> string" where
  "nat_digits n =
     (if n < 10 then [char_of (48 + n)] else nat_digits (n div 10) @ [char_of (48 + n mod 10)])"

subsection \<open>Cells and the cleaning helpers\<close>

text \<open>
  A cell of the profile table: missing, text, or a whole number. \<^verbatim>\<open>str\<close> of a cell is
  its text, or the decimal digits of the number.
\<close>

datatype cell = CNull | CStr string | CInt int

fun py_str :: "cell \<Rightarrow> string" where
  "py_str (CStr s) = s"
| "py_str (CInt i) = (if i < 0 then CHR ''-'' # nat_digits (nat (- i)) else nat_digits (nat i))"
| "py_str CNull = ''nan''"

definition CITY_CANONICAL_MAP :: "(string \<times> string) list" where
  "CITY_CANONICAL_MAP =
     [(''mississauga'', ''Mississauga''), (''missisauga'', ''Mississauga''),
      (''mississauaga'', ''Mississauga''), (''mississouga'', ''Mississauga''),
      (''oakville'', ''Oakville''), (''toronto'', ''Toronto''), (''brampton'', ''Brampton''),
      (''burlington'', ''Burlington''), (''hamilton'', ''Hamilton''), (''vaughan'', ''Vaughan''),
      (''richmond hill'', ''Richmond Hill'')]"

definition city_suffixes :: "string list" where
  "city_suffixes = ['' on'', '' ab'', '' bc'', '' can'', '' canada'', '' ontario'']"

definition strip_suffix_step :: "string \<Rightarrow> string \<Rightarrow> string" where
  \<comment> \<open>one round of the loop over the suffixes\<close>
  "strip_suffix_step suf s = (if suffix suf s then str_strip (str_replace suf [] s) else s)"

definition city_key :: "string \<Rightarrow> string" where
  \<comment> \<open>the text \<^verbatim>\<open>clean_city\<close> tests: stripped, lowered, cut at the first comma,
      the suffixes removed\<close>
  "city_key text =
     (let s = str_lower (str_strip text);
          s = (if str_contains '','' s then str_strip (takeWhile (\<lambda>c. c \<noteq> CHR '','') s) else s)
      in fold strip_suffix_step city_suffixes s)"

definition clean_city :: "cell \<Rightarrow> cell" where
  "clean_city city =
     (if city = CNull then CNull
      else
        let s = city_key (py_str city) in
        if prefix ''mis'' s then CStr ''Mississauga''
        else case map_of CITY_CANONICAL_MAP s of
               Some canonical \<Rightarrow> CStr canonical
             | None \<Rightarrow> CStr (str_title s))"

definition clean_volunteer_status :: "cell \<Rightarrow> cell" where
  "clean_volunteer_status status =
     (if status = CNull then CStr ''Unknown''
      else
        let s = str_lower (str_strip (py_str status)) in
        if str_contains ''applicant'' s then CStr ''Applicant''
        else if str_contains ''process'' s then CStr ''In Process''
        else if str_contains ''accepted'' s then CStr ''Accepted''
        else if str_contains ''inactive'' s then CStr ''Inactive''
        else if str_contains ''archived'' s then CStr ''Archived''
        else CStr ''Other'')"

definition extract_fsa :: "cell \<Rightarrow> cell" where
  "extract_fsa postal =
     (if postal = CNull then CNull
      else
        let s = str_upper (str_replace '' '' [] (py_str postal)) in
        if length s \<ge> 3 then CStr (take 3 s) else CNull)"

definition classify_language :: "string \<Rightarrow> string" where
  "classify_language text =
     (if str_strip text = [] then ''Other/Unknown''
      else
        let t = str_lower text;
            has_english = str_contains ''english'' t;
            is_multi = list_ex (\<lambda>sep. str_contains sep t) ['','', '';'', '' and '', ''/'']
        in if has_english \<and> is_multi then ''Multilingual''
           else if has_english then ''English only''
           else ''Other/Unknown'')"

subsection \<open>Data frames with named columns\<close>

text \<open>
  The profile table has whatever columns its file has, so it is a list of named columns,
  each of one cell per row. Reading a column the frame lacks raises \<^verbatim>\<open>KeyError\<close>.
\<close>

type_synonym frame = "(string \<times> cell list) list"

datatype error = KeyError string

definition rename_columns :: "(string \<times> string) list \<Rightarrow> frame \<Rightarrow> frame" where
  "rename_columns names df =
     map (\<lambda>(c, vs). (case map_of names c of Some c' \<Rightarrow> c' | None \<Rightarrow> c, vs)) df"

definition select_present :: "string list \<Rightarrow> frame \<Rightarrow> frame" where
  \<comment> \<open>\<^verbatim>\<open>df[[c for c in cols if c in df.columns]]\<close>\<close>
  "select_present cols df = List.map_filter (\<lambda>c. map_option (Pair c) (map_of df c)) cols"

definition getitem :: "frame \<Rightarrow> string \<Rightarrow> error + cell list" where
  "getitem df c = (case map_of df c of None \<Rightarrow> Inl (KeyError c) | Some vs \<Rightarrow> Inr vs)"

definition setitem :: "frame \<Rightarrow> string \<Rightarrow> cell list \<Rightarrow> frame" where
  "setitem df c vs =
     (if c \<in> set (map fst df) then map (\<lambda>(c', vs'). (c', if c' = c then vs else vs')) df
      else df @ [(c, vs)])"

definition id_cell :: "nat option \<Rightarrow> cell" where
  "id_cell v = (case v of None \<Rightarrow> CNull | Some n \<Rightarrow> CInt (int n))"

text \<open>A merged row: the shift record and the profile's other columns, cell by cell.\<close>

type_synonym merged_row = "shift \<times> (string \<times> cell) list"

definition merge_left :: "shift list \<Rightarrow> frame \<Rightarrow> error + merged_row list" where
  \<comment> \<open>\<^verbatim>\<open>df_hours.merge(df_vol, on="Volunteer ID", how="left")\<close>\<close>
  "merge_left df_hours df_vol =
     (case map_of df_vol ''Volunteer ID'' of
        None \<Rightarrow> Inl (KeyError ''Volunteer ID'')
      | Some keys \<Rightarrow>
          let others = filter (\<lambda>(c, vs). c \<noteq> ''Volunteer ID'') df_vol in
          Inr (concat (map (\<lambda>r.
            let hits = filter (\<lambda>i. keys ! i = id_cell (Volunteer_ID r)) [0..<length keys] in
            if hits = [] then [(r, map (\<lambda>(c, vs). (c, CNull)) others)]
            else map (\<lambda>i. (r, map (\<lambda>(c, vs). (c, vs ! i)) others)) hits) df_hours)))"

definition vol_renames :: "(string \<times> string) list" where
  "vol_renames =
     [(''DatabaseUserId'', ''Volunteer ID''),
      (''CF - 2025 Update - Age Range (archived Nov 2025)'', ''Age Range''),
      (''CF - Skills & Experience - Languages spoken:'', ''Language''),
      (''YearsSinceVolunteerDateJoined'', ''YearsJoined'')]"

definition vol_cols :: "string list" where
  "vol_cols = [''Volunteer ID'', ''City'', ''PostalCode'', ''Province'', ''Country'',
     ''YearsJoined'', ''VolunteerStatus'', ''Age Range'', ''Language'']"

definition normalize_profiles :: "frame \<Rightarrow> error + frame" where
  \<comment> \<open>\<^verbatim>\<open>merge_volunteer_data\<close> up to the merge, on the table read from the file\<close>
  "normalize_profiles df_vol =
     (let df_vol = rename_columns vol_renames df_vol;
          df_vol = select_present vol_cols df_vol
      in case getitem df_vol ''City'' of Inl e \<Rightarrow> Inl e | Inr city \<Rightarrow>
         let df_vol = setitem df_vol ''City'' (map clean_city city)
         in case getitem df_vol ''VolunteerStatus'' of Inl e \<Rightarrow> Inl e | Inr status \<Rightarrow>
            let df_vol = setitem df_vol ''VolunteerStatus'' (map clean_volunteer_status status)
            in case getitem df_vol ''PostalCode'' of Inl e \<Rightarrow> Inl e | Inr postal \<Rightarrow>
               Inr (setitem df_vol ''FSA'' (map extract_fsa postal)))"

definition merge_volunteer_data :: "shift list \<Rightarrow> frame \<Rightarrow> error + merged_row list" where
  "merge_volunteer_data df_hours df_vol =
     (case normalize_profiles df_vol of
        Inl e \<Rightarrow> Inl e
      | Inr df_vol' \<Rightarrow> merge_left df_hours df_vol')"

section \<open>Worked example\<close>

text \<open>
  Volunteer 1 works 4 hours on 2023-01-10 and 6 hours on 2023-06-01, volunteer 2 works
  3 hours on 2023-01-15, volunteer 3 works 2 hours on 2023-12-01 at 10:00.
\<close>

definition example_shift :: "nat \<Rightarrow> int \<Rightarrow> int \<Rightarrow> int \<Rightarrow> int \<Rightarrow> real \<Rightarrow> shift" where
  "example_shift v y m d secs h =
     \<lparr>Volunteer_ID = Some v, DateVolunteered = Timestamp y m d + secs, Year = y,
      Month = MONTH_ORDER ! nat (m - 1), Season = SEASONS ((m - 1) div 3 + 1),
      Category = Some ''Food Sort'', SubCategory = None, Hours = Some h\<rparr>"

definition example_shifts :: "shift list" where
  "example_shifts =
     [example_shift 1 2023 1 10 0 4, example_shift 1 2023 6 1 0 6,
      example_shift 2 2023 1 15 0 3, example_shift 3 2023 12 1 36000 2]"

text \<open>
  A shift log of two rows. The first has an empty volunteer id cell; both parse, and both
  pass every filter. The parser of the example reads the two date strings of this log as
  pandas does.
\<close>

definition example_to_datetime :: "string \<Rightarrow> timestamp option" where
  "example_to_datetime s =
     (if s = ''03/07/2022 10:00:00 AM'' then Some (Timestamp 2022 7 3 + 36000)
      else if s = ''10/01/2023 09:00:00 AM'' then Some (Timestamp 2023 1 10 + 32400)
      else None)"

definition blank_id_log :: "raw_shift list" where
  "blank_id_log =
     [\<lparr>DatabaseUserId = None, raw_DateVolunteered = Some ''03/07/2022 10:00:00 AM'',
       HoursWorked = Some 3, FinalCategory = Some ''Food Sort'', EventSubcategory = None\<rparr>,
      \<lparr>DatabaseUserId = Some 1, raw_DateVolunteered = Some ''10/01/2023 09:00:00 AM'',
       HoursWorked = Some 4, FinalCategory = Some ''Food Sort'', EventSubcategory = None\<rparr>]"

definition blank_id_table :: "shift list" where
  "blank_id_table = load_and_clean_hours example_to_datetime blank_id_log"

subsection \<open>The growth decomposition, stated on sets\<close>

definition first_active_year :: "shift set \<Rightarrow> nat \<Rightarrow> int" where
  "first_active_year R v = Min (Year ` {r \<in> R. Volunteer_ID r = Some v})"

definition new_count :: "shift list \<Rightarrow> int \<Rightarrow> int" where
  "new_count df y =
     int (card {v \<in> volunteers_of (set (not_training df)).
                  first_active_year (set (not_training df)) v = y})"

definition active_count :: "shift list \<Rightarrow> int \<Rightarrow> int" where
  "active_count df y = int (card (volunteers_of (qualifying df y)))"

text \<open>Volunteer 1 works in 2022 and 2023, volunteer 2 in 2023 only.\<close>

definition two_year_shifts :: "shift list" where
  "two_year_shifts =
     [example_shift 1 2022 3 5 0 2, example_shift 1 2023 1 10 0 4, example_shift 2 2023 1 15 0 3]"

subsection \<open>The cells of the seasonal and monthly tables\<close>

definition period_rows :: "(shift \<Rightarrow> string option) \<Rightarrow> int \<Rightarrow> string \<Rightarrow> shift list \<Rightarrow> shift list" where
  \<comment> \<open>the records of a year and a period (a season or a month)\<close>
  "period_rows col y c df = filter (\<lambda>r. Year r = y \<and> col r = Some c) df"

definition cell_avg :: "shift list \<Rightarrow> fval" where
  "cell_avg g = fillna0 (fdiv (hours_sum g) (real (nunique g)))"

text \<open>
  A shift log with one row for each way of being dropped, and one row, with the misspelt
  category, that is kept. The parser of the example reads the date strings of this log as
  pandas does; the second row's date does not parse.
\<close>

definition messy_to_datetime :: "string \<Rightarrow> timestamp option" where
  "messy_to_datetime s =
     (if s = ''10/01/2023 09:00:00 AM'' then Some (Timestamp 2023 1 10 + 32400)
      else if s = ''15/06/2016 01:00:00 PM'' then Some (Timestamp 2016 6 15 + 46800)
      else None)"

definition messy_row ::
    "nat \<Rightarrow> string option \<Rightarrow> real option \<Rightarrow> string \<Rightarrow> string option \<Rightarrow> raw_shift" where
  "messy_row v d h c s =
     \<lparr>DatabaseUserId = Some v, raw_DateVolunteered = d, HoursWorked = h,
      FinalCategory = Some c, EventSubcategory = s\<rparr>"

definition messy_log :: "raw_shift list" where
  "messy_log =
     [messy_row 1 (Some ''10/01/2023 09:00:00 AM'') (Some 4) ''Market/Ware house Operation'' None,
      messy_row 2 (Some ''not a date'') (Some 3) ''Food Sort'' None,
      messy_row 3 (Some ''15/06/2016 01:00:00 PM'') (Some 2) ''Food Sort'' None,
      messy_row 4 (Some ''10/01/2023 09:00:00 AM'') (Some 20) ''Food Sort'' None,
      messy_row 5 (Some ''10/01/2023 09:00:00 AM'') (Some 5) ''Food Sort''
        (Some ''Holiday & Seasonal Meal Programs''),
      messy_row 6 None (Some 1) ''Food Sort'' None,
      messy_row 7 (Some ''10/01/2023 09:00:00 AM'') None ''Food Sort'' None]"

subsection \<open>What each cleaning step keeps\<close>

fun keeps :: "step \<Rightarrow> frame_row \<Rightarrow> bool" where
  "keeps DropNullDates r = (fr_DateVolunteered r \<noteq> None)"
| "keeps DropYear2016 r = (fr_Year r \<noteq> Some 2016)"
| "keeps DropLongHours r = hours_at_most_16 (fr_Hours r)"
| "keeps DropExcludedSubcategory r =
     (fr_SubCategory r \<noteq> Some ''Holiday & Seasonal Meal Programs'')"
| "keeps RenameCategory r = True"

definition rename_row :: "frame_row \<Rightarrow> frame_row" where
  "rename_row r = r\<lparr>fr_Category := replace_category (fr_Category r)\<rparr>"

subsection \<open>The profile rules, in the specification's words\<close>

text \<open>
  The key of a city when a matched suffix is cut off the end only, which is how the
  specification words the step ("stripping trailing province/country suffixes"); to be
  compared with \<open>city_key\<close>, which removes every occurrence as the source does.
\<close>

definition remove_trailing :: "string \<Rightarrow> string \<Rightarrow> string" where
  "remove_trailing suf s =
     (if suffix suf s then str_strip (take (length s - length suf) s) else s)"

definition city_key_trailing_only :: "string \<Rightarrow> string" where
  "city_key_trailing_only text =
     (let s = str_lower (str_strip text);
          s = (if str_contains '','' s then str_strip (takeWhile (\<lambda>c. c \<noteq> CHR '','') s) else s)
      in fold remove_trailing city_suffixes s)"

definition mentions_english :: "string \<Rightarrow> bool" where
  "mentions_english s = str_contains ''english'' (str_lower s)"

definition has_separator :: "string \<Rightarrow> bool" where
  "has_separator s \<longleftrightarrow>
     str_contains '','' (str_lower s) \<or> str_contains '';'' (str_lower s)
     \<or> str_contains '' and '' (str_lower s) \<or> str_contains ''/'' (str_lower s)"

text \<open>
  Two profile tables: one without a city column, one with every column that the merge
  reads and a language column.
\<close>

definition profile_without_city :: frame where
  "profile_without_city =
     [(''DatabaseUserId'', [CInt 1]), (''PostalCode'', [CStr ''M5V 2T6'']),
      (''VolunteerStatus'', [CStr ''Accepted''])]"

definition profile_with_language :: frame where
  "profile_with_language =
     [(''DatabaseUserId'', [CInt 1]), (''City'', [CStr ''toronto, on'']),
      (''PostalCode'', [CStr ''m5v 2t6'']), (''VolunteerStatus'', [CStr ''Accepted volunteer'']),
      (''CF - Skills & Experience - Languages spoken:'', [CStr ''English, French''])]"

section \<open>Properties of the group-by helpers\<close>

lemma set_unique_sorted: "set (unique_sorted xs) = set xs"
  by (simp add: unique_sorted_def)

lemma distinct_unique_sorted: "distinct (unique_sorted xs)"
  by (simp add: unique_sorted_def)

lemma sorted_unique_sorted: "sorted (unique_sorted xs)"
  by (simp add: unique_sorted_def)

lemma set_map_filter_Some: "set (List.map_filter f xs) = {k. \<exists>x \<in> set xs. f x = Some k}"
  by (induction xs) (auto simp: List.map_filter_simps split: option.splits)

lemma set_group_keys: "set (group_keys key df) = {k. \<exists>r \<in> set df. key r = Some k}"
  by (simp add: group_keys_def set_unique_sorted set_map_filter_Some)

lemma distinct_group_keys: "distinct (group_keys key df)"
  by (simp add: group_keys_def distinct_unique_sorted)

lemma fold_max_hd:
  assumes "rs \<noteq> []"
  shows "fold max (map f rs) (f (hd rs)) = Max (f ` set rs)"
proof -
  from assms obtain r rs' where rs: "rs = r # rs'" by (cases rs) auto
  have "fold max (map f rs) (f (hd rs)) = fold max (map f rs') (f r)"
    by (simp add: rs)
  also have "\<dots> = Max (set (f r # map f rs'))"
    by (simp only: Max.set_eq_fold)
  finally show ?thesis by (simp add: rs)
qed

lemma length_filter_card:
  assumes "distinct ks"
  shows "length (filter Q ks) = card {v \<in> set ks. Q v}"
  using assms by (simp add: distinct_length_filter Collect_conj_eq Int_commute)

section \<open>Properties of rolling retention\<close>

lemma set_year_rows_not_training: "set (year_rows y (not_training df)) = qualifying df y"
  by (auto simp: year_rows_def not_training_def qualifying_def)

lemma last_shift_of_eq:
  "last_shift_of df_y = map (\<lambda>v. (v, latest_shift (set df_y) v)) (group_keys Volunteer_ID df_y)"
proof -
  have "fold max (map DateVolunteered (group_rows Volunteer_ID v df_y))
          (DateVolunteered (hd (group_rows Volunteer_ID v df_y))) = latest_shift (set df_y) v"
    if "v \<in> set (group_keys Volunteer_ID df_y)" for v
  proof -
    from that have "group_rows Volunteer_ID v df_y \<noteq> []"
      by (auto simp: set_group_keys group_rows_def filter_empty_conv)
    then show ?thesis
      by (simp add: fold_max_hd latest_shift_def group_rows_def)
  qed
  then show ?thesis
    by (simp add: last_shift_of_def)
qed


lemma retention_year_empty:
  "year_rows yr df_nt = [] \<Longrightarrow> retention_year df_nt yr = []"
  by (simp add: retention_year_def)

lemma retention_year_row:
  assumes "year_rows yr df_nt \<noteq> []"
  shows "\<exists>row. retention_year df_nt yr = [row] \<and> ret_Year row = yr
     \<and> ret_Total_Volunteers row = card (volunteers_of (set (year_rows yr df_nt)))
     \<and> ret_Inactive_Volunteers row =
          card {v \<in> volunteers_of (set (year_rows yr df_nt)).
                  180 < inactivity_age (set (year_rows yr df_nt)) yr v}
     \<and> ret_Active_Volunteers row =
          card {v \<in> volunteers_of (set (year_rows yr df_nt)).
                  \<not> 180 < inactivity_age (set (year_rows yr df_nt)) yr v}"
proof -
  let ?dfy = "year_rows yr df_nt"
  let ?ks = "group_keys Volunteer_ID ?dfy"
  let ?g = "\<lambda>v. 180 < inactivity_age (set ?dfy) yr v"
  have ks: "set ?ks = volunteers_of (set ?dfy)"
    by (simp add: set_group_keys volunteers_of_def)
  have d: "distinct ?ks" by (rule distinct_group_keys)
  have inact: "map (\<lambda>(v, d). (v, threshold_days < d))
       (map (\<lambda>(v, t). (v, timedelta_days (Timestamp yr 12 31) t)) (last_shift_of ?dfy))
     = map (\<lambda>v. (v, ?g v)) ?ks"
    by (simp add: last_shift_of_eq inactivity_age_def threshold_days_def)
  have n_in: "length (filter ?g ?ks) = card {v \<in> volunteers_of (set ?dfy). ?g v}"
    using length_filter_card [OF d, of ?g] by (simp add: ks)
  have n_ac: "length (filter (\<lambda>v. \<not> ?g v) ?ks) = card {v \<in> volunteers_of (set ?dfy). \<not> ?g v}"
    using length_filter_card [OF d, of "\<lambda>v. \<not> ?g v"] by (simp add: ks)
  have tot: "length (last_shift_of ?dfy) = card (volunteers_of (set ?dfy))"
    using d by (simp add: last_shift_of_eq distinct_card [symmetric] ks [symmetric])
  show ?thesis
    using assms unfolding retention_year_def Let_def inact
    by (simp add: n_in n_ac tot comp_def)
qed

lemma card_split_pred:
  assumes "finite A"
  shows "card {v \<in> A. \<not> P v} + card {v \<in> A. P v} = card A"
proof -
  have "card ({v \<in> A. \<not> P v} \<union> {v \<in> A. P v}) = card {v \<in> A. \<not> P v} + card {v \<in> A. P v}"
    using assms by (intro card_Un_disjoint) auto
  moreover have "{v \<in> A. \<not> P v} \<union> {v \<in> A. P v} = A" by auto
  ultimately show ?thesis by simp
qed

lemma finite_volunteers_of: "finite R \<Longrightarrow> finite (volunteers_of R)"
proof -
  assume f: "finite R"
  have "volunteers_of R \<subseteq> (\<lambda>r. the (Volunteer_ID r)) ` R"
    by (force simp: volunteers_of_def)
  then show ?thesis using f by (meson finite_imageI finite_subset)
qed

lemma retention_rows_mem:
  assumes "row \<in> set (compute_retention_rolling_6mo df)"
  shows "\<exists>yr. qualifying df yr \<noteq> {} \<and> retention_year (not_training df) yr = [row]"
proof -
  from assms obtain yr where yr: "row \<in> set (retention_year (not_training df) yr)"
    by (auto simp: compute_retention_rolling_6mo_def Let_def)
  then have ne: "year_rows yr (not_training df) \<noteq> []"
    using retention_year_empty by fastforce
  from retention_year_row [OF ne] yr have "retention_year (not_training df) yr = [row]"
    by auto
  moreover from ne have "qualifying df yr \<noteq> {}"
    by (simp add: set_year_rows_not_training [symmetric])
  ultimately show ?thesis by blast
qed

lemma map_ret_Year:
  "map ret_Year (compute_retention_rolling_6mo df) = unique_sorted (map Year (not_training df))"
proof -
  have one: "map ret_Year (retention_year (not_training df) yr) = [yr]"
    if "yr \<in> set (unique_sorted (map Year (not_training df)))" for yr
  proof -
    from that have "year_rows yr (not_training df) \<noteq> []"
      by (auto simp: set_unique_sorted year_rows_def filter_empty_conv)
    from retention_year_row [OF this] show ?thesis by auto
  qed
  have "map ret_Year (compute_retention_rolling_6mo df)
      = concat (map (\<lambda>yr. map ret_Year (retention_year (not_training df) yr))
          (unique_sorted (map Year (not_training df))))"
    by (simp add: compute_retention_rolling_6mo_def Let_def map_concat comp_def)
  also have "\<dots> = concat (map (\<lambda>yr. [yr]) (unique_sorted (map Year (not_training df))))"
    using one by (metis (mono_tags, lifting) map_eq_conv)
  also have "\<dots> = unique_sorted (map Year (not_training df))"
    by (induction "unique_sorted (map Year (not_training df))") auto
  finally show ?thesis .
qed

text \<open>
  The whole-day count rounds down, so it exceeds 180 exactly when the latest shift lies at
  least 181 full days before the midnight that starts December 31. A shift on 2023-07-03
  at midnight is 181 whole days before the end of 2023; one at 10:00 that day is 180.
\<close>

lemma whole_days_exceed_iff:
  "180 < timedelta_days year_end t \<longleftrightarrow> 181 * 86400 \<le> year_end - t"
  unfolding timedelta_days_def by linarith

lemma retention_boundary_example:
  "timedelta_days (Timestamp 2023 12 31) (Timestamp 2023 7 3) = 181
   \<and> timedelta_days (Timestamp 2023 12 31) (Timestamp 2023 7 3 + 36000) = 180"
  by (simp add: timedelta_days_def Timestamp_def days_from_civil_def)

text \<open>
  Claim C1. Restricted to the records whose category is not Training, the retention table
  has one row for every year with at least one such record, in ascending order. In the row
  of a year, the total is the number of volunteers with a qualifying record that year, the
  inactive count is the number of them for whom December 31 of the year minus their latest
  shift of the year, in whole days, exceeds 180, the active count is the number of the
  others, and the active and inactive counts add up to the total.
\<close>

theorem retention_rolling_classification:
  "distinct (map ret_Year (compute_retention_rolling_6mo df))
   \<and> sorted (map ret_Year (compute_retention_rolling_6mo df))
   \<and> set (map ret_Year (compute_retention_rolling_6mo df)) = {y. qualifying df y \<noteq> {}}
   \<and> (\<forall>row \<in> set (compute_retention_rolling_6mo df).
        ret_Total_Volunteers row = card (volunteers_of (qualifying df (ret_Year row)))
      \<and> ret_Inactive_Volunteers row =
          card {v \<in> volunteers_of (qualifying df (ret_Year row)).
                  180 < inactivity_age (qualifying df (ret_Year row)) (ret_Year row) v}
      \<and> ret_Active_Volunteers row =
          card {v \<in> volunteers_of (qualifying df (ret_Year row)).
                  \<not> 180 < inactivity_age (qualifying df (ret_Year row)) (ret_Year row) v}
      \<and> ret_Active_Volunteers row + ret_Inactive_Volunteers row = ret_Total_Volunteers row)"
proof (intro conjI ballI)
  show "distinct (map ret_Year (compute_retention_rolling_6mo df))"
    by (simp only: map_ret_Year distinct_unique_sorted)
  show "sorted (map ret_Year (compute_retention_rolling_6mo df))"
    by (simp only: map_ret_Year sorted_unique_sorted)
  show "set (map ret_Year (compute_retention_rolling_6mo df)) = {y. qualifying df y \<noteq> {}}"
    by (auto simp: map_ret_Year set_unique_sorted qualifying_def not_training_def)
next
  fix row assume "row \<in> set (compute_retention_rolling_6mo df)"
  then obtain yr where ne: "qualifying df yr \<noteq> {}"
    and r: "retention_year (not_training df) yr = [row]"
    using retention_rows_mem by blast
  from ne have "year_rows yr (not_training df) \<noteq> []"
    by (simp add: set_year_rows_not_training [symmetric])
  from retention_year_row [OF this] r
  have y: "ret_Year row = yr"
    and t: "ret_Total_Volunteers row = card (volunteers_of (qualifying df yr))"
    and i: "ret_Inactive_Volunteers row =
          card {v \<in> volunteers_of (qualifying df yr). 180 < inactivity_age (qualifying df yr) yr v}"
    and a: "ret_Active_Volunteers row =
          card {v \<in> volunteers_of (qualifying df yr). \<not> 180 < inactivity_age (qualifying df yr) yr v}"
    by (auto simp: set_year_rows_not_training)
  show "ret_Total_Volunteers row = card (volunteers_of (qualifying df (ret_Year row)))"
    using t y by simp
  show "ret_Inactive_Volunteers row =
          card {v \<in> volunteers_of (qualifying df (ret_Year row)).
                  180 < inactivity_age (qualifying df (ret_Year row)) (ret_Year row) v}"
    using i y by simp
  show "ret_Active_Volunteers row =
          card {v \<in> volunteers_of (qualifying df (ret_Year row)).
                  \<not> 180 < inactivity_age (qualifying df (ret_Year row)) (ret_Year row) v}"
    using a y by simp
  have "finite (volunteers_of (qualifying df yr))"
    by (rule finite_volunteers_of) (simp add: qualifying_def)
  from card_split_pred [OF this, of "\<lambda>v. 180 < inactivity_age (qualifying df yr) yr v"]
  show "ret_Active_Volunteers row + ret_Inactive_Volunteers row = ret_Total_Volunteers row"
    using t i a by simp
qed

theorem retention_rolling_classification_witness:
  "compute_retention_rolling_6mo example_shifts =
     [\<lparr>ret_Year = 2023, ret_Total_Volunteers = 3, ret_Active_Volunteers = 1,
       ret_Inactive_Volunteers = 2, ret_Active_pct = 100 / 3, ret_Inactive_pct = 200 / 3\<rparr>]
   \<and> card (volunteers_of (qualifying example_shifts 2023)) = 3
   \<and> card {v \<in> volunteers_of (qualifying example_shifts 2023).
             180 < inactivity_age (qualifying example_shifts 2023) 2023 v} = 2"
proof -
  have run: "compute_retention_rolling_6mo example_shifts =
     [\<lparr>ret_Year = 2023, ret_Total_Volunteers = 3, ret_Active_Volunteers = 1,
       ret_Inactive_Volunteers = 2, ret_Active_pct = 100 / 3, ret_Inactive_pct = 200 / 3\<rparr>]"
    by (simp add: compute_retention_rolling_6mo_def example_shifts_def example_shift_def
        not_training_def unique_sorted_def retention_year_def year_rows_def last_shift_of_def
        group_keys_def group_rows_def List.map_filter_simps Timestamp_def days_from_civil_def
        timedelta_days_def threshold_days_def Let_def)
  show ?thesis
    using retention_rolling_classification [of example_shifts] unfolding run by simp
qed

section \<open>Properties of the top-20% concentration\<close>

lemma top_n_ceiling: "nat \<lceil>0.20 * real n\<rceil> = (n + 4) div 5"
proof -
  have "(0.20::real) * real n = real_of_int (int n) / real_of_int 5" by simp
  then have "\<lceil>0.20 * real n\<rceil> = - (- int n div 5)"
    by (simp only: ceiling_divide_eq_div)
  also have "\<dots> = int ((n + 4) div 5)" by (simp add: zdiv_int)
  finally show ?thesis by simp
qed

lemma top_n_ceiling_div: "nat \<lceil>real n / 5\<rceil> = (n + 4) div 5"
  using top_n_ceiling [of n] by simp

lemma length_volunteer_totals:
  "length (volunteer_totals df_y) = card (volunteers_of (set df_y))"
proof -
  have "set (group_keys Volunteer_ID df_y) = volunteers_of (set df_y)"
    by (simp add: set_group_keys volunteers_of_def)
  then show ?thesis
    using distinct_card [OF distinct_group_keys, of Volunteer_ID df_y]
    by (simp add: volunteer_totals_def)
qed

lemma map_fst_volunteer_totals:
  "map fst (volunteer_totals df_y) = group_keys Volunteer_ID df_y"
  by (simp add: volunteer_totals_def comp_def)

lemma mset_sort_values_desc: "mset (sort_values_desc s) = mset s"
  by (simp add: sort_values_desc_def)

lemma sort_values_desc_Nil: "sort_values_desc s = [] \<longleftrightarrow> s = []"
  using mset_sort_values_desc [of s] by (metis mset_zero_iff)

lemma length_sort_values_desc: "length (sort_values_desc s) = length s"
  by (simp add: sort_values_desc_def)

lemma sorted_take_drop:
  assumes "sorted (map f xs)"
  shows "\<forall>a \<in> set (take n xs). \<forall>b \<in> set (drop n xs). f a \<le> f b"
proof -
  have "sorted (map f (take n xs) @ map f (drop n xs))"
    using assms by (simp flip: map_append)
  then show ?thesis by (auto simp: sorted_append)
qed

lemma sort_values_desc_segments:
  "\<forall>a \<in> set (take n (sort_values_desc s)). \<forall>b \<in> set (drop n (sort_values_desc s)). snd b \<le> snd a"
proof -
  have "sorted (map (\<lambda>(v, h). - h) (sort_values_desc s))"
    by (simp add: sort_values_desc_def)
  from sorted_take_drop [OF this, of n] show ?thesis by (auto simp: case_prod_beta)
qed

lemma sum_take_drop:
  "sum_list (map f (take n xs)) + sum_list (map f (drop n xs)) = (sum_list (map f xs) :: real)"
proof -
  have "sum_list (map f (take n xs @ drop n xs)) = sum_list (map f xs)" by simp
  then show ?thesis by (simp only: map_append sum_list_append)
qed

lemma top20_year_cases:
  "(volunteers_of (set (year_rows yr df)) = {} \<and> top20_year df yr = [])
   \<or> (volunteers_of (set (year_rows yr df)) \<noteq> {} \<and>
       (\<exists>row. top20_year df yr = [row] \<and> t20_Year row = yr
          \<and> t20_Total_Volunteers row = card (volunteers_of (set (year_rows yr df)))
          \<and> t20_Top_Volunteers row = (t20_Total_Volunteers row + 4) div 5
          \<and> t20_Total_Hours row =
              sum_list (map snd (sort_values_desc (volunteer_totals (year_rows yr df))))
          \<and> t20_Top_Hours row =
              sum_list (map snd (take (t20_Top_Volunteers row)
                (sort_values_desc (volunteer_totals (year_rows yr df)))))
          \<and> t20_Mean_Hours_Other row =
              (if drop (t20_Top_Volunteers row)
                    (sort_values_desc (volunteer_totals (year_rows yr df))) = [] then Fin 0
               else series_mean (map snd (drop (t20_Top_Volunteers row)
                    (sort_values_desc (volunteer_totals (year_rows yr df))))))))"
proof (cases "volunteer_totals (year_rows yr df) = []")
  case True
  then have "card (volunteers_of (set (year_rows yr df))) = 0"
    using length_volunteer_totals [of "year_rows yr df"] by simp
  moreover have "finite (volunteers_of (set (year_rows yr df)))"
    by (rule finite_volunteers_of) simp
  ultimately have "volunteers_of (set (year_rows yr df)) = {}" by simp
  moreover have "top20_year df yr = []"
    using True by (simp add: top20_year_def sort_values_desc_Nil)
  ultimately show ?thesis by simp
next
  case False
  then have "0 < length (volunteer_totals (year_rows yr df))" by simp
  then have pos: "0 < card (volunteers_of (set (year_rows yr df)))"
    by (simp only: length_volunteer_totals)
  then have ne: "volunteers_of (set (year_rows yr df)) \<noteq> {}" by auto
  show ?thesis
    using False ne pos
    by (simp add: top20_year_def Let_def sort_values_desc_Nil length_sort_values_desc
        length_volunteer_totals top_n_ceiling_div)
qed


lemma map_key_concat_singletons:
  assumes "\<And>y. y \<in> set ys \<Longrightarrow> f y = [] \<or> (\<exists>row. f y = [row] \<and> key row = y)"
  shows "map key (concat (map f ys)) = filter (\<lambda>y. f y \<noteq> []) ys"
  using assms
proof (induction ys)
  case Nil
  then show ?case by simp
next
  case (Cons y ys)
  then have IH: "map key (concat (map f ys)) = filter (\<lambda>y. f y \<noteq> []) ys" by simp
  from Cons.prems [of y] have "f y = [] \<or> (\<exists>row. f y = [row] \<and> key row = y)" by simp
  then show ?case using IH by auto
qed

lemma top20_year_Nil_iff:
  "top20_year df yr = [] \<longleftrightarrow> (\<forall>r \<in> set df. Year r = yr \<longrightarrow> Volunteer_ID r = None)"
proof -
  have "volunteers_of (set (year_rows yr df)) = {} \<longleftrightarrow>
      (\<forall>r \<in> set df. Year r = yr \<longrightarrow> Volunteer_ID r = None)"
    by (auto simp: volunteers_of_def year_rows_def) (metis not_None_eq)
  then show ?thesis using top20_year_cases [of yr df] by auto
qed

lemma map_t20_Year:
  "map t20_Year (compute_top20_engagement df) =
     filter (\<lambda>y. \<exists>r \<in> set df. Year r = y \<and> Volunteer_ID r \<noteq> None) (unique_sorted (map Year df))"
proof -
  have "map t20_Year (concat (map (top20_year df) (unique_sorted (map Year df))))
      = filter (\<lambda>y. top20_year df y \<noteq> []) (unique_sorted (map Year df))"
    by (rule map_key_concat_singletons) (use top20_year_cases in blast)
  then show ?thesis
    by (simp add: compute_top20_engagement_def top20_year_Nil_iff)
qed

text \<open>
  Claim C2. In every row of the concentration table, the total is the number of distinct
  volunteers with a record that year and the top count is the ceiling of 0.20 times the
  total. The per-volunteer totals, sorted by hours descending, list every volunteer of the
  year once; the top segment is the first top-count entries, so no entry of the remainder
  has more hours than an entry of the top segment. The top-segment hours and the remainder
  hours add up to the total hours, and the mean of the remainder is reported as 0 when the
  remainder is empty, and as its arithmetic mean otherwise.
\<close>

theorem top20_concentration:
  "\<forall>row \<in> set (compute_top20_engagement df).
     (let totals = sort_values_desc (volunteer_totals (year_rows (t20_Year row) df));
          top20 = take (t20_Top_Volunteers row) totals;
          other80 = drop (t20_Top_Volunteers row) totals
      in t20_Total_Volunteers row = card (volunteers_of {r \<in> set df. Year r = t20_Year row})
       \<and> int (t20_Top_Volunteers row) = \<lceil>0.20 * real (t20_Total_Volunteers row)\<rceil>
       \<and> mset totals = mset (volunteer_totals (year_rows (t20_Year row) df))
       \<and> distinct (map fst (volunteer_totals (year_rows (t20_Year row) df)))
       \<and> set (map fst (volunteer_totals (year_rows (t20_Year row) df))) =
           volunteers_of {r \<in> set df. Year r = t20_Year row}
       \<and> length top20 = t20_Top_Volunteers row
       \<and> (\<forall>a \<in> set top20. \<forall>b \<in> set other80. snd b \<le> snd a)
       \<and> t20_Total_Hours row = sum_list (map snd totals)
       \<and> t20_Top_Hours row = sum_list (map snd top20)
       \<and> t20_Top_Hours row + sum_list (map snd other80) = t20_Total_Hours row
       \<and> t20_Mean_Hours_Other row =
           (if other80 = [] then Fin 0
            else Fin (sum_list (map snd other80) / real (length other80))))"
proof
  fix row assume "row \<in> set (compute_top20_engagement df)"
  then obtain yr where "row \<in> set (top20_year df yr)"
    by (auto simp: compute_top20_engagement_def)
  with top20_year_cases [of yr df]
  have y: "t20_Year row = yr"
    and n: "t20_Total_Volunteers row = card (volunteers_of (set (year_rows yr df)))"
    and k: "t20_Top_Volunteers row = (t20_Total_Volunteers row + 4) div 5"
    and th: "t20_Total_Hours row =
              sum_list (map snd (sort_values_desc (volunteer_totals (year_rows yr df))))"
    and tp: "t20_Top_Hours row =
              sum_list (map snd (take (t20_Top_Volunteers row)
                (sort_values_desc (volunteer_totals (year_rows yr df)))))"
    and mo: "t20_Mean_Hours_Other row =
              (if drop (t20_Top_Volunteers row)
                    (sort_values_desc (volunteer_totals (year_rows yr df))) = [] then Fin 0
               else series_mean (map snd (drop (t20_Top_Volunteers row)
                    (sort_values_desc (volunteer_totals (year_rows yr df))))))"
    by auto
  let ?totals = "sort_values_desc (volunteer_totals (year_rows yr df))"
  have R: "set (year_rows yr df) = {r \<in> set df. Year r = yr}"
    by (auto simp: year_rows_def)
  have len: "length ?totals = t20_Total_Volunteers row"
    by (simp add: length_sort_values_desc length_volunteer_totals n)
  have c1: "t20_Total_Volunteers row = card (volunteers_of {r \<in> set df. Year r = yr})"
    using n R by simp
  have c2: "int (t20_Top_Volunteers row) = \<lceil>0.20 * real (t20_Total_Volunteers row)\<rceil>"
  proof -
    have "(0::int) \<le> \<lceil>0.20 * real (t20_Total_Volunteers row)\<rceil>"
      by (simp add: zero_le_ceiling)
    then show ?thesis
      using top_n_ceiling [of "t20_Total_Volunteers row"] k by linarith
  qed
  have c3: "mset ?totals = mset (volunteer_totals (year_rows yr df))"
    by (rule mset_sort_values_desc)
  have c4: "distinct (map fst (volunteer_totals (year_rows yr df)))"
    by (simp only: map_fst_volunteer_totals distinct_group_keys)
  have c5: "set (map fst (volunteer_totals (year_rows yr df))) =
      volunteers_of {r \<in> set df. Year r = yr}"
    by (simp only: map_fst_volunteer_totals set_group_keys R [symmetric] volunteers_of_def)
  have "t20_Top_Volunteers row \<le> t20_Total_Volunteers row" using k by linarith
  then have c6: "length (take (t20_Top_Volunteers row) ?totals) = t20_Top_Volunteers row"
    using len by simp
  note c7 = sort_values_desc_segments [of "t20_Top_Volunteers row" "volunteer_totals (year_rows yr df)"]
  have c10: "t20_Top_Hours row + sum_list (map snd (drop (t20_Top_Volunteers row) ?totals))
      = t20_Total_Hours row"
    unfolding th tp by (rule sum_take_drop)
  have c11: "t20_Mean_Hours_Other row =
      (if drop (t20_Top_Volunteers row) ?totals = [] then Fin 0
       else Fin (sum_list (map snd (drop (t20_Top_Volunteers row) ?totals))
                 / real (length (drop (t20_Top_Volunteers row) ?totals))))"
    unfolding mo by (simp add: series_mean_def)
  show "let totals = sort_values_desc (volunteer_totals (year_rows (t20_Year row) df));
          top20 = take (t20_Top_Volunteers row) totals;
          other80 = drop (t20_Top_Volunteers row) totals
      in t20_Total_Volunteers row = card (volunteers_of {r \<in> set df. Year r = t20_Year row})
       \<and> int (t20_Top_Volunteers row) = \<lceil>0.20 * real (t20_Total_Volunteers row)\<rceil>
       \<and> mset totals = mset (volunteer_totals (year_rows (t20_Year row) df))
       \<and> distinct (map fst (volunteer_totals (year_rows (t20_Year row) df)))
       \<and> set (map fst (volunteer_totals (year_rows (t20_Year row) df))) =
           volunteers_of {r \<in> set df. Year r = t20_Year row}
       \<and> length top20 = t20_Top_Volunteers row
       \<and> (\<forall>a \<in> set top20. \<forall>b \<in> set other80. snd b \<le> snd a)
       \<and> t20_Total_Hours row = sum_list (map snd totals)
       \<and> t20_Top_Hours row = sum_list (map snd top20)
       \<and> t20_Top_Hours row + sum_list (map snd other80) = t20_Total_Hours row
       \<and> t20_Mean_Hours_Other row =
           (if other80 = [] then Fin 0
            else Fin (sum_list (map snd other80) / real (length other80)))"
    unfolding Let_def y
    by (intro conjI c1 c2 c3 c4 c5 c6 c7 th tp c10 c11)
qed

theorem top20_concentration_witness:
  "compute_top20_engagement example_shifts =
     [\<lparr>t20_Year = 2023, t20_Total_Volunteers = 3, t20_Top_Volunteers = 1,
       t20_Total_Hours = 15, t20_Top_Hours = 10, t20_Top_Share_pct = Fin (200 / 3),
       t20_Mean_Hours_Top = Fin 10, t20_Mean_Hours_Other = Fin (5 / 2)\<rparr>]
   \<and> card (volunteers_of {r \<in> set example_shifts. Year r = 2023}) = 3
   \<and> \<lceil>0.20 * real (3::nat)\<rceil> = 1"
proof -
  have run: "compute_top20_engagement example_shifts =
     [\<lparr>t20_Year = 2023, t20_Total_Volunteers = 3, t20_Top_Volunteers = 1,
       t20_Total_Hours = 15, t20_Top_Hours = 10, t20_Top_Share_pct = Fin (200 / 3),
       t20_Mean_Hours_Top = Fin 10, t20_Mean_Hours_Other = Fin (5 / 2)\<rparr>]"
    by code_simp
  have "t20_Total_Volunteers (hd (compute_top20_engagement example_shifts)) =
      card (volunteers_of {r \<in> set example_shifts.
        Year r = t20_Year (hd (compute_top20_engagement example_shifts))})"
    and "int (t20_Top_Volunteers (hd (compute_top20_engagement example_shifts))) =
      \<lceil>0.20 * real (t20_Total_Volunteers (hd (compute_top20_engagement example_shifts)))\<rceil>"
    using top20_concentration [of example_shifts] unfolding Let_def
    by (simp_all only: run list.set ball_simps list.sel)
  then show ?thesis unfolding run by simp
qed

text \<open>
  Claim C10, as stated, fails: a cleaned table can hold a record with no volunteer id
  (an empty cell of the log survives the cleaning), the group-by drops it, and a year with
  only such records reaches the guard and gets no row. In the example, the cleaned table
  has the years 2022 and 2023 and the concentration table has a row for 2023 only.
\<close>

theorem top20_rows_per_year_counterexample:
  "map Year blank_id_table = [2022, 2023]
   \<and> map Volunteer_ID blank_id_table = [None, Some 1]
   \<and> map t20_Year (compute_top20_engagement blank_id_table) = [2023]
   \<and> top20_year blank_id_table 2022 = []"
  by code_simp

text \<open>
  Claim C10, amended. The concentration table has exactly one row for every year that
  has at least one record with a volunteer id, in ascending order of the year. The guard
  skips a year exactly when none of its records has a volunteer id; when every record has
  one, the table has one row per distinct year of the input.
\<close>

theorem top20_rows_per_year:
  "sorted (map t20_Year (compute_top20_engagement df))
   \<and> distinct (map t20_Year (compute_top20_engagement df))
   \<and> set (map t20_Year (compute_top20_engagement df)) =
       {y. \<exists>r \<in> set df. Year r = y \<and> Volunteer_ID r \<noteq> None}
   \<and> (\<forall>y \<in> set (map Year df).
        top20_year df y = [] \<longleftrightarrow> (\<forall>r \<in> set df. Year r = y \<longrightarrow> Volunteer_ID r = None))
   \<and> ((\<forall>r \<in> set df. Volunteer_ID r \<noteq> None) \<longrightarrow>
        map t20_Year (compute_top20_engagement df) = unique_sorted (map Year df))"
proof (intro conjI ballI impI)
  show "sorted (map t20_Year (compute_top20_engagement df))"
    unfolding map_t20_Year by (rule sorted_wrt_filter) (rule sorted_unique_sorted)
  show "distinct (map t20_Year (compute_top20_engagement df))"
    unfolding map_t20_Year by (rule distinct_filter) (rule distinct_unique_sorted)
  show "set (map t20_Year (compute_top20_engagement df)) =
       {y. \<exists>r \<in> set df. Year r = y \<and> Volunteer_ID r \<noteq> None}"
    unfolding map_t20_Year by (auto simp: set_unique_sorted)
  show "top20_year df y = [] \<longleftrightarrow> (\<forall>r \<in> set df. Year r = y \<longrightarrow> Volunteer_ID r = None)" for y
    by (rule top20_year_Nil_iff)
  assume all: "\<forall>r \<in> set df. Volunteer_ID r \<noteq> None"
  have "filter (\<lambda>y. \<exists>r \<in> set df. Year r = y \<and> Volunteer_ID r \<noteq> None) (unique_sorted (map Year df))
      = unique_sorted (map Year df)"
    using all by (auto simp: filter_id_conv set_unique_sorted)
  then show "map t20_Year (compute_top20_engagement df) = unique_sorted (map Year df)"
    by (simp add: map_t20_Year)
qed

theorem top20_rows_per_year_witness:
  "map Volunteer_ID example_shifts = [Some 1, Some 1, Some 2, Some 3]
   \<and> map t20_Year (compute_top20_engagement example_shifts) = [2023]
   \<and> unique_sorted (map Year example_shifts) = [2023]
   \<and> 2022 \<in> set (map Year blank_id_table)
   \<and> top20_year blank_id_table 2022 = []
   \<and> (\<exists>r \<in> set blank_id_table. Year r = 2022 \<and> Volunteer_ID r = None)"
proof -
  have ids: "\<forall>r \<in> set example_shifts. Volunteer_ID r \<noteq> None"
    by (simp add: example_shifts_def example_shift_def)
  have years: "unique_sorted (map Year example_shifts) = [2023]"
    by code_simp
  have rows: "map Year blank_id_table = [2022, 2023]"
    and vids: "map Volunteer_ID blank_id_table = [None, Some 1]"
    by code_simp+
  have mem: "2022 \<in> set (map Year blank_id_table)"
    unfolding rows by simp
  have guard: "top20_year blank_id_table 2022 = []"
    by code_simp
  have "\<exists>r \<in> set blank_id_table. Year r = 2022 \<and> Volunteer_ID r = None"
    by code_simp
  moreover have "map Volunteer_ID example_shifts = [Some 1, Some 1, Some 2, Some 3]"
    by (simp add: example_shifts_def example_shift_def)
  moreover from top20_rows_per_year [of example_shifts] ids
  have "map t20_Year (compute_top20_engagement example_shifts)
      = unique_sorted (map Year example_shifts)"
    by blast
  ultimately show ?thesis using years mem guard by simp
qed

section \<open>Properties of the growth decomposition\<close>

lemma fold_min_hd:
  assumes "rs \<noteq> []"
  shows "fold min (map f rs) (f (hd rs)) = Min (f ` set rs)"
proof -
  from assms obtain r rs' where rs: "rs = r # rs'" by (cases rs) auto
  have "fold min (map f rs) (f (hd rs)) = fold min (map f rs') (f r)"
    by (simp add: rs)
  also have "\<dots> = Min (set (f r # map f rs'))"
    by (simp only: Min.set_eq_fold)
  finally show ?thesis by (simp add: rs)
qed

lemma first_year_eq:
  "first_year df_nt =
     map (\<lambda>v. (v, first_active_year (set df_nt) v)) (group_keys Volunteer_ID df_nt)"
proof -
  have "fold min (map Year (group_rows Volunteer_ID v df_nt))
          (Year (hd (group_rows Volunteer_ID v df_nt))) = first_active_year (set df_nt) v"
    if "v \<in> set (group_keys Volunteer_ID df_nt)" for v
  proof -
    from that have "group_rows Volunteer_ID v df_nt \<noteq> []"
      by (auto simp: set_group_keys group_rows_def filter_empty_conv)
    then show ?thesis
      by (simp add: fold_min_hd first_active_year_def group_rows_def)
  qed
  then show ?thesis
    by (simp add: first_year_def)
qed

lemma nunique_card: "nunique df = card (volunteers_of (set df))"
proof -
  have "set (List.map_filter Volunteer_ID df) = volunteers_of (set df)"
    by (simp add: set_map_filter_Some volunteers_of_def)
  then show ?thesis
    by (simp add: nunique_def length_remdups_card_conv)
qed

lemma count_list_map_card:
  assumes "distinct ks"
  shows "count_list (map f ks) y = card {v \<in> set ks. f v = y}"
proof -
  have "count_list (map f ks) y = length (filter (\<lambda>v. f v = y) ks)"
    by (induction ks) auto
  then show ?thesis using length_filter_card [OF assms] by simp
qed

lemma map_of_value_counts:
  "(case map_of (value_counts_sorted xs) y of Some c \<Rightarrow> c | None \<Rightarrow> 0) = int (count_list xs y)"
proof (cases "y \<in> set xs")
  case True
  then have "map_of (value_counts_sorted xs) y = Some (int (count_list xs y))"
    by (simp add: value_counts_sorted_def map_of_map_restrict set_unique_sorted)
  then show ?thesis by simp
next
  case False
  then have "map_of (value_counts_sorted xs) y = None"
    by (simp add: value_counts_sorted_def map_of_map_restrict set_unique_sorted)
  moreover from False have "count_list xs y = 0" by (simp add: count_list_0_iff)
  ultimately show ?thesis by simp
qed

lemma growth_explainer_of_eq:
  "growth_explainer_of df =
     map (\<lambda>y. \<lparr>g_Year = y, g_ActiveVolunteers = active_count df y,
                g_NewVolunteers = new_count df y,
                g_ReturningVolunteers = active_count df y - new_count df y,
                g_pct_New = fscale (fdiv (real_of_int (new_count df y))
                                         (real_of_int (active_count df y))) 100,
                g_pct_Returning = fscale (fdiv (real_of_int (active_count df y - new_count df y))
                                               (real_of_int (active_count df y))) 100\<rparr>)
       (unique_sorted (map Year (not_training df)))"
proof -
  let ?nt = "not_training df"
  have new: "(case map_of (value_counts_sorted (map snd (first_year ?nt))) y of
                Some c \<Rightarrow> c | None \<Rightarrow> 0) = new_count df y" for y
  proof -
    have "count_list (map snd (first_year ?nt)) y =
        card {v \<in> set (group_keys Volunteer_ID ?nt). first_active_year (set ?nt) v = y}"
      using count_list_map_card [OF distinct_group_keys, of "first_active_year (set ?nt)" Volunteer_ID ?nt y]
      by (simp add: first_year_eq comp_def)
    then show ?thesis
      by (simp add: map_of_value_counts new_count_def set_group_keys volunteers_of_def)
  qed
  have act: "int (nunique (year_rows y ?nt)) = active_count df y" for y
    by (simp add: nunique_card active_count_def set_year_rows_not_training)
  show ?thesis
    unfolding growth_explainer_of_def Let_def active_by_year_def reindex_fill_def
    by (simp add: zip_map_map zip_same_conv_map comp_def new act)
qed


lemma first_active_year_in:
  assumes "v \<in> volunteers_of (set df_nt)"
  shows "\<exists>r \<in> set df_nt. Volunteer_ID r = Some v \<and> Year r = first_active_year (set df_nt) v"
proof -
  let ?S = "{r \<in> set df_nt. Volunteer_ID r = Some v}"
  have "finite (Year ` ?S)" by simp
  moreover from assms have "Year ` ?S \<noteq> {}" by (auto simp: volunteers_of_def)
  ultimately have "Min (Year ` ?S) \<in> Year ` ?S" by (rule Min_in)
  then show ?thesis by (auto simp: first_active_year_def)
qed

lemma new_le_active: "new_count df y \<le> active_count df y"
proof -
  have "{v \<in> volunteers_of (set (not_training df)).
          first_active_year (set (not_training df)) v = y} \<subseteq> volunteers_of (qualifying df y)"
  proof
    fix v assume "v \<in> {v \<in> volunteers_of (set (not_training df)).
          first_active_year (set (not_training df)) v = y}"
    then have v: "v \<in> volunteers_of (set (not_training df))"
      and f: "first_active_year (set (not_training df)) v = y" by auto
    from first_active_year_in [OF v] f obtain r where "r \<in> set (not_training df)"
      "Volunteer_ID r = Some v" "Year r = y" by auto
    then show "v \<in> volunteers_of (qualifying df y)"
      by (auto simp: volunteers_of_def qualifying_def not_training_def)
  qed
  moreover have "finite (volunteers_of (qualifying df y))"
    by (rule finite_volunteers_of) (simp add: qualifying_def)
  ultimately show ?thesis
    unfolding new_count_def active_count_def by (simp add: card_mono)
qed

text \<open>
  Claim C3. Over the records whose category is not Training, the growth table has one row
  for every year with such a record. In the row of a year, the active count is the number
  of distinct volunteers of the year, the new count is the number of volunteers whose first
  active year is that year (0, not a missing value, when there is none), the returning
  count is the active count minus the new count, so new plus returning is the active count,
  and the returning count is never negative. Every volunteer's first active year is the
  year of exactly one row.
\<close>

theorem growth_decomposition:
  "sorted (map g_Year (fst (compute_trends df)))
   \<and> distinct (map g_Year (fst (compute_trends df)))
   \<and> set (map g_Year (fst (compute_trends df))) = {y. qualifying df y \<noteq> {}}
   \<and> (\<forall>row \<in> set (fst (compute_trends df)).
        g_ActiveVolunteers row = active_count df (g_Year row)
      \<and> g_NewVolunteers row = new_count df (g_Year row)
      \<and> g_ReturningVolunteers row = g_ActiveVolunteers row - g_NewVolunteers row
      \<and> g_NewVolunteers row + g_ReturningVolunteers row = g_ActiveVolunteers row
      \<and> 0 \<le> g_ReturningVolunteers row
      \<and> ((\<forall>v \<in> volunteers_of (set (not_training df)).
             first_active_year (set (not_training df)) v \<noteq> g_Year row)
           \<longrightarrow> g_NewVolunteers row = 0))
   \<and> (\<forall>v \<in> volunteers_of (set (not_training df)).
        \<exists>!row. row \<in> set (fst (compute_trends df))
           \<and> g_Year row = first_active_year (set (not_training df)) v)"
proof -
  let ?ys = "unique_sorted (map Year (not_training df))"
  let ?out = "fst (compute_trends df)"
  have out: "?out = growth_explainer_of df" by (simp add: compute_trends_def)
  have years: "map g_Year ?out = ?ys"
    unfolding out growth_explainer_of_eq by (simp add: comp_def)
  have s1: "sorted (map g_Year ?out)" unfolding years by (rule sorted_unique_sorted)
  have s2: "distinct (map g_Year ?out)" unfolding years by (rule distinct_unique_sorted)
  have s3: "set (map g_Year ?out) = {y. qualifying df y \<noteq> {}}"
    unfolding years by (auto simp: set_unique_sorted qualifying_def not_training_def)
  have s4: "g_ActiveVolunteers row = active_count df (g_Year row)
      \<and> g_NewVolunteers row = new_count df (g_Year row)
      \<and> g_ReturningVolunteers row = g_ActiveVolunteers row - g_NewVolunteers row
      \<and> g_NewVolunteers row + g_ReturningVolunteers row = g_ActiveVolunteers row
      \<and> 0 \<le> g_ReturningVolunteers row
      \<and> ((\<forall>v \<in> volunteers_of (set (not_training df)).
             first_active_year (set (not_training df)) v \<noteq> g_Year row)
           \<longrightarrow> g_NewVolunteers row = 0)"
    if "row \<in> set ?out" for row
  proof -
    from that obtain y where a: "g_ActiveVolunteers row = active_count df y"
      and n: "g_NewVolunteers row = new_count df y"
      and r: "g_ReturningVolunteers row = active_count df y - new_count df y"
      and y: "g_Year row = y"
      unfolding out growth_explainer_of_eq by auto
    have zero: "new_count df y = 0"
      if "\<forall>v \<in> volunteers_of (set (not_training df)).
             first_active_year (set (not_training df)) v \<noteq> y"
    proof -
      from that have e: "{v \<in> volunteers_of (set (not_training df)).
          first_active_year (set (not_training df)) v = y} = {}" by auto
      show ?thesis unfolding new_count_def e by simp
    qed
    show ?thesis using a n r y new_le_active [of df y] zero by simp
  qed
  have s5: "\<exists>!row. row \<in> set ?out \<and> g_Year row = first_active_year (set (not_training df)) v"
    if v: "v \<in> volunteers_of (set (not_training df))" for v
  proof -
    let ?f = "first_active_year (set (not_training df)) v"
    from first_active_year_in [OF v] have "?f \<in> set (map Year (not_training df))" by force
    then have "?f \<in> set (map g_Year ?out)" unfolding years by (simp add: set_unique_sorted)
    then obtain row where row: "row \<in> set ?out" "g_Year row = ?f" by auto
    have "row' = row" if "row' \<in> set ?out" "g_Year row' = ?f" for row'
      using s2 row that by (metis distinct_map inj_onD)
    with row show ?thesis by blast
  qed
  from s1 s2 s3 s4 s5 show ?thesis by blast
qed

theorem growth_decomposition_witness:
  "fst (compute_trends two_year_shifts) =
     [\<lparr>g_Year = 2022, g_ActiveVolunteers = 1, g_NewVolunteers = 1, g_ReturningVolunteers = 0,
       g_pct_New = Fin 100, g_pct_Returning = Fin 0\<rparr>,
      \<lparr>g_Year = 2023, g_ActiveVolunteers = 2, g_NewVolunteers = 1, g_ReturningVolunteers = 1,
       g_pct_New = Fin 50, g_pct_Returning = Fin 50\<rparr>]
   \<and> active_count two_year_shifts 2023 = 2
   \<and> new_count two_year_shifts 2023 = 1
   \<and> new_count two_year_shifts 2022 = 1"
proof -
  have run: "fst (compute_trends two_year_shifts) =
     [\<lparr>g_Year = 2022, g_ActiveVolunteers = 1, g_NewVolunteers = 1, g_ReturningVolunteers = 0,
       g_pct_New = Fin 100, g_pct_Returning = Fin 0\<rparr>,
      \<lparr>g_Year = 2023, g_ActiveVolunteers = 2, g_NewVolunteers = 1, g_ReturningVolunteers = 1,
       g_pct_New = Fin 50, g_pct_Returning = Fin 50\<rparr>]"
    by code_simp
  show ?thesis
    using growth_decomposition [of two_year_shifts] unfolding run by simp
qed

section \<open>Properties of the seasonal and monthly averages\<close>

lemma pivot_at_table:
  "pivot_at \<lparr>pv_index = idx, pv_columns = C, pv_values = map (\<lambda>y. map (F y) C) idx\<rparr> y c =
     (if y \<in> set idx \<and> c \<in> set C then Some (F y c) else None)"
  by (simp add: pivot_at_def map_of_zip_map)

lemma group_rows_year_key:
  "group_rows (year_key col) (y, c) df = period_rows col y c df"
  by (auto simp: group_rows_def period_rows_def year_key_def intro: filter_cong)

lemma year_key_member:
  "(y, c) \<in> set (group_keys (year_key col) df) \<longleftrightarrow> period_rows col y c df \<noteq> []"
  by (auto simp: set_group_keys year_key_def period_rows_def filter_empty_conv)

lemma hours_sum_Nil: "hours_sum [] = 0"
  by (simp add: hours_sum_def List.map_filter_simps)

lemma nunique_Nil: "nunique [] = 0"
  by (simp add: nunique_def List.map_filter_simps)

lemma unstack_fill_eq:
  assumes "agg [] = fill"
  shows "unstack_fill col agg fill df =
     \<lparr>pv_index = unique_sorted (map fst (group_keys (year_key col) df)),
      pv_columns = unique_sorted (map snd (group_keys (year_key col) df)),
      pv_values = map (\<lambda>y. map (\<lambda>c. agg (period_rows col y c df))
                     (unique_sorted (map snd (group_keys (year_key col) df))))
                   (unique_sorted (map fst (group_keys (year_key col) df)))\<rparr>"
proof -
  have "(if (y, c) \<in> set (group_keys (year_key col) df)
         then agg (group_rows (year_key col) (y, c) df) else fill) = agg (period_rows col y c df)"
    for y c
    using assms by (simp add: year_key_member group_rows_year_key)
  then show ?thesis by (simp add: unstack_fill_def Let_def)
qed

lemma map2_table:
  "map2 (map2 f) (map (\<lambda>y. map (H y) C) idx) (map (\<lambda>y. map (V y) C) idx) =
     map (\<lambda>y. map (\<lambda>c. f (H y c) (V y c)) C) idx"
  by (simp add: zip_map_map zip_same_conv_map comp_def)

lemma season_avg_of_eq:
  "season_avg_of df =
     \<lparr>pv_index = unique_sorted (map fst (group_keys (year_key Season) df)),
      pv_columns = unique_sorted (map snd (group_keys (year_key Season) df)),
      pv_values = map (\<lambda>y. map (\<lambda>c. cell_avg (period_rows Season y c df))
                     (unique_sorted (map snd (group_keys (year_key Season) df))))
                   (unique_sorted (map fst (group_keys (year_key Season) df)))\<rparr>"
  unfolding season_avg_of_def Let_def
  by (simp add: unstack_fill_eq hours_sum_Nil nunique_Nil pivot_div_def pivot_fillna0_def
      map2_table cell_avg_def comp_def)

lemma reindex_row:
  "map (\<lambda>c. case map_of (zip C (map G C)) c of Some x \<Rightarrow> x | None \<Rightarrow> NaN) cols =
     map (\<lambda>c. if c \<in> set C then G c else NaN) cols"
  by (simp add: map_of_zip_map)

lemma month_avg_of_eq:
  "month_avg_of df =
     \<lparr>pv_index = unique_sorted (map fst (group_keys (year_key (\<lambda>r. Some (Month r))) df)),
      pv_columns = MONTH_ORDER,
      pv_values = map (\<lambda>y. map (\<lambda>c. cell_avg (period_rows (\<lambda>r. Some (Month r)) y c df))
                     MONTH_ORDER)
                   (unique_sorted (map fst (group_keys (year_key (\<lambda>r. Some (Month r))) df)))\<rparr>"
proof -
  let ?col = "\<lambda>r. Some (Month r)"
  let ?C = "unique_sorted (map snd (group_keys (year_key ?col) df))"
  have cell: "fillna0 (if c \<in> set ?C
        then fdiv (hours_sum (period_rows ?col y c df)) (real (nunique (period_rows ?col y c df)))
        else NaN) = cell_avg (period_rows ?col y c df)" for y c
  proof (cases "c \<in> set ?C")
    case True
    then show ?thesis by (simp add: cell_avg_def)
  next
    case False
    then have "(y, c) \<notin> set (group_keys (year_key ?col) df)"
      by (force simp: set_unique_sorted)
    then have "period_rows ?col y c df = []" by (simp add: year_key_member)
    then show ?thesis using False
      by (simp add: cell_avg_def hours_sum_Nil nunique_Nil fdiv_def fillna0_def)
  qed
  show ?thesis
    unfolding month_avg_of_def Let_def
    by (simp add: unstack_fill_eq hours_sum_Nil nunique_Nil pivot_div_def pivot_fillna0_def
        map2_table reindex_columns_def reindex_row comp_def cell)
qed

lemma month_index: "unique_sorted (map fst (group_keys (year_key (\<lambda>r. Some (Month r))) df))
    = unique_sorted (map Year df)"
proof -
  have "set (map fst (group_keys (year_key (\<lambda>r. Some (Month r))) df)) = set (map Year df)"
    by (force simp: set_group_keys year_key_def)
  then have "set (unique_sorted (map fst (group_keys (year_key (\<lambda>r. Some (Month r))) df)))
      = set (unique_sorted (map Year df))"
    by (simp only: set_unique_sorted)
  then show ?thesis
    by (intro sorted_distinct_set_unique sorted_unique_sorted distinct_unique_sorted)
qed

lemma cell_avg_cases:
  "(g = [] \<longrightarrow> cell_avg g = Fin 0)
   \<and> (0 < nunique g \<longrightarrow> cell_avg g = Fin (hours_sum g / real (nunique g)))
   \<and> (nunique g = 0 \<and> hours_sum g = 0 \<longrightarrow> cell_avg g = Fin 0)
   \<and> (nunique g = 0 \<and> 0 < hours_sum g \<longrightarrow> cell_avg g = PosInf)"
  by (auto simp: cell_avg_def fdiv_def fillna0_def hours_sum_Nil nunique_Nil)


lemma pivot_at_cell:
  assumes "p = \<lparr>pv_index = idx, pv_columns = C,
                pv_values = map (\<lambda>y. map (\<lambda>c. cell_avg (period_rows col y c df)) C) idx\<rparr>"
    and "y \<in> set idx" and "c \<in> set C"
  shows "\<exists>x. pivot_at p y c = Some x
     \<and> (period_rows col y c df = [] \<longrightarrow> x = Fin 0)
     \<and> (0 < nunique (period_rows col y c df) \<longrightarrow>
          x = Fin (hours_sum (period_rows col y c df) / real (nunique (period_rows col y c df))))
     \<and> (nunique (period_rows col y c df) = 0 \<and> hours_sum (period_rows col y c df) = 0 \<longrightarrow>
          x = Fin 0)"
proof -
  have "pivot_at p y c = Some (cell_avg (period_rows col y c df))"
    unfolding assms(1) using assms(2,3) by (simp add: pivot_at_table)
  then show ?thesis using cell_avg_cases [of "period_rows col y c df"] by simp
qed

text \<open>
  What the two tables do hold. The monthly table's columns are exactly the twelve months
  from January to December, whatever the order or coverage of the input, and its rows are
  the years of the input. In both tables a cell of a year and a period with no record is
  0, a cell whose records have at least one distinct volunteer is the total hours divided
  by the number of distinct volunteers of the period, and a cell whose records have no
  volunteer id and zero total hours is 0.
\<close>

lemma seasonal_monthly_averages:
  "pv_columns (snd (snd (compute_trends df))) = MONTH_ORDER
   \<and> pv_index (snd (snd (compute_trends df))) = unique_sorted (map Year df)
   \<and> (\<forall>row \<in> set (pv_values (snd (snd (compute_trends df)))). length row = 12)
   \<and> (\<forall>y \<in> set (pv_index (snd (snd (compute_trends df)))). \<forall>m \<in> set MONTH_ORDER.
        \<exists>x. pivot_at (snd (snd (compute_trends df))) y m = Some x
          \<and> (period_rows (\<lambda>r. Some (Month r)) y m df = [] \<longrightarrow> x = Fin 0)
          \<and> (0 < nunique (period_rows (\<lambda>r. Some (Month r)) y m df) \<longrightarrow>
               x = Fin (hours_sum (period_rows (\<lambda>r. Some (Month r)) y m df)
                        / real (nunique (period_rows (\<lambda>r. Some (Month r)) y m df))))
          \<and> (nunique (period_rows (\<lambda>r. Some (Month r)) y m df) = 0
               \<and> hours_sum (period_rows (\<lambda>r. Some (Month r)) y m df) = 0 \<longrightarrow> x = Fin 0))
   \<and> (\<forall>y \<in> set (pv_index (fst (snd (compute_trends df)))).
      \<forall>c \<in> set (pv_columns (fst (snd (compute_trends df)))).
        \<exists>x. pivot_at (fst (snd (compute_trends df))) y c = Some x
          \<and> (period_rows Season y c df = [] \<longrightarrow> x = Fin 0)
          \<and> (0 < nunique (period_rows Season y c df) \<longrightarrow>
               x = Fin (hours_sum (period_rows Season y c df)
                        / real (nunique (period_rows Season y c df))))
          \<and> (nunique (period_rows Season y c df) = 0
               \<and> hours_sum (period_rows Season y c df) = 0 \<longrightarrow> x = Fin 0))"
proof -
  have m: "snd (snd (compute_trends df)) = month_avg_of df"
    and s: "fst (snd (compute_trends df)) = season_avg_of df"
    by (simp_all add: compute_trends_def)
  have c1: "pv_columns (month_avg_of df) = MONTH_ORDER"
    by (simp add: month_avg_of_eq)
  have c2: "pv_index (month_avg_of df) = unique_sorted (map Year df)"
    by (simp add: month_avg_of_eq month_index)
  have c3: "\<forall>row \<in> set (pv_values (month_avg_of df)). length row = 12"
    by (auto simp: month_avg_of_eq MONTH_ORDER_def)
  have c4: "\<exists>x. pivot_at (month_avg_of df) y m = Some x
          \<and> (period_rows (\<lambda>r. Some (Month r)) y m df = [] \<longrightarrow> x = Fin 0)
          \<and> (0 < nunique (period_rows (\<lambda>r. Some (Month r)) y m df) \<longrightarrow>
               x = Fin (hours_sum (period_rows (\<lambda>r. Some (Month r)) y m df)
                        / real (nunique (period_rows (\<lambda>r. Some (Month r)) y m df))))
          \<and> (nunique (period_rows (\<lambda>r. Some (Month r)) y m df) = 0
               \<and> hours_sum (period_rows (\<lambda>r. Some (Month r)) y m df) = 0 \<longrightarrow> x = Fin 0)"
    if "y \<in> set (pv_index (month_avg_of df))" "m \<in> set MONTH_ORDER" for y m
    using that by (intro pivot_at_cell [OF month_avg_of_eq]) (simp_all add: month_avg_of_eq)
  have c5: "\<exists>x. pivot_at (season_avg_of df) y c = Some x
          \<and> (period_rows Season y c df = [] \<longrightarrow> x = Fin 0)
          \<and> (0 < nunique (period_rows Season y c df) \<longrightarrow>
               x = Fin (hours_sum (period_rows Season y c df)
                        / real (nunique (period_rows Season y c df))))
          \<and> (nunique (period_rows Season y c df) = 0
               \<and> hours_sum (period_rows Season y c df) = 0 \<longrightarrow> x = Fin 0)"
    if "y \<in> set (pv_index (season_avg_of df))" "c \<in> set (pv_columns (season_avg_of df))" for y c
    using that by (intro pivot_at_cell [OF season_avg_of_eq]) (simp_all add: season_avg_of_eq)
  show ?thesis unfolding m s using c1 c2 c3 c4 c5 by blast
qed

lemma seasonal_monthly_averages_example:
  "pv_columns (snd (snd (compute_trends example_shifts))) =
     [''January'', ''February'', ''March'', ''April'', ''May'', ''June'', ''July'',
      ''August'', ''September'', ''October'', ''November'', ''December'']
   \<and> pv_index (snd (snd (compute_trends example_shifts))) = [2023]
   \<and> pivot_at (snd (snd (compute_trends example_shifts))) 2023 ''January'' = Some (Fin (7 / 2))
   \<and> pivot_at (snd (snd (compute_trends example_shifts))) 2023 ''February'' = Some (Fin 0)
   \<and> pivot_at (fst (snd (compute_trends example_shifts))) 2023 ''Winter'' = Some (Fin (7 / 2))
   \<and> pivot_at (fst (snd (compute_trends example_shifts))) 2023 ''Spring'' = Some (Fin 6)"
proof -
  let ?M = "snd (snd (compute_trends example_shifts))"
  let ?S = "fst (snd (compute_trends example_shifts))"
  note main = seasonal_monthly_averages [of example_shifts]
  have years: "unique_sorted (map Year example_shifts) = [2023]" by code_simp
  from main have cols: "pv_columns ?M = MONTH_ORDER" and idx: "pv_index ?M = [2023]"
    unfolding years by blast+
  have jan: "nunique (period_rows (\<lambda>r. Some (Month r)) 2023 ''January'' example_shifts) = 2"
    "hours_sum (period_rows (\<lambda>r. Some (Month r)) 2023 ''January'' example_shifts) = 7"
    and feb: "period_rows (\<lambda>r. Some (Month r)) 2023 ''February'' example_shifts = []"
    by code_simp+
  have mem: "(2023::int) \<in> set (pv_index ?M)" "''January'' \<in> set MONTH_ORDER"
    "''February'' \<in> set MONTH_ORDER"
    unfolding idx by (simp_all add: MONTH_ORDER_def)
  from main mem have "\<exists>x. pivot_at ?M 2023 ''January'' = Some x
      \<and> (0 < nunique (period_rows (\<lambda>r. Some (Month r)) 2023 ''January'' example_shifts) \<longrightarrow>
           x = Fin (hours_sum (period_rows (\<lambda>r. Some (Month r)) 2023 ''January'' example_shifts)
             / real (nunique (period_rows (\<lambda>r. Some (Month r)) 2023 ''January'' example_shifts))))"
    by blast
  then have c3: "pivot_at ?M 2023 ''January'' = Some (Fin (7 / 2))"
    unfolding jan by simp
  from main mem have "\<exists>x. pivot_at ?M 2023 ''February'' = Some x
      \<and> (period_rows (\<lambda>r. Some (Month r)) 2023 ''February'' example_shifts = [] \<longrightarrow> x = Fin 0)"
    by blast
  then have c4: "pivot_at ?M 2023 ''February'' = Some (Fin 0)"
    using feb by simp
  have c5: "pivot_at ?S 2023 ''Winter'' = Some (Fin (7 / 2))"
    and c6: "pivot_at ?S 2023 ''Spring'' = Some (Fin 6)"
    by code_simp+
  show ?thesis using cols idx c3 c4 c5 c6 by (simp add: MONTH_ORDER_def)
qed

text \<open>
  Claim C8 fails on the code in one case. The records of a period may all lack a volunteer
  id (an empty cell of the log survives the cleaning); the distinct count of the cell is
  then 0, the hours are divided by 0, and the quotient is an infinity, which \<^verbatim>\<open>fillna(0)\<close>,
  written to make the cells without volunteers 0, leaves in place. In the cleaned table of
  the example the records of Summer 2022 and of July 2022 have 3 hours and no volunteer
  id: both cells have zero distinct volunteers and are infinite, not 0.
\<close>

theorem zero_volunteer_cell_infinite:
  "map Year blank_id_table = [2022, 2023]
   \<and> map Volunteer_ID blank_id_table = [None, Some 1]
   \<and> nunique (period_rows Season 2022 ''Summer'' blank_id_table) = 0
   \<and> hours_sum (period_rows Season 2022 ''Summer'' blank_id_table) = 3
   \<and> pivot_at (fst (snd (compute_trends blank_id_table))) 2022 ''Summer'' = Some PosInf
   \<and> nunique (period_rows (\<lambda>r. Some (Month r)) 2022 ''July'' blank_id_table) = 0
   \<and> hours_sum (period_rows (\<lambda>r. Some (Month r)) 2022 ''July'' blank_id_table) = 3
   \<and> pivot_at (snd (snd (compute_trends blank_id_table))) 2022 ''July'' = Some PosInf
   \<and> PosInf \<noteq> Fin 0"
  by code_simp

section \<open>Properties of the cleaning\<close>

lemma keeps_rename_row: "keeps s (rename_row r) = keeps s r"
  by (cases s) (simp_all add: rename_row_def)

lemma rename_row_idem: "rename_row (rename_row r) = rename_row r"
  by (simp add: rename_row_def replace_category_def)

lemma apply_step_eq:
  "apply_step s df =
     (if s = RenameCategory then map rename_row df else filter (keeps s) df)"
  by (cases s) (auto simp: rename_row_def intro: filter_cong)

lemma fold_apply_step:
  "fold apply_step steps df =
     map (if RenameCategory \<in> set steps then rename_row else id)
       (filter (\<lambda>r. \<forall>s \<in> set steps. keeps s r) df)"
proof (induction steps arbitrary: df)
  case Nil
  then show ?case by simp
next
  case (Cons s steps)
  have step: "fold apply_step (s # steps) df =
      map (if RenameCategory \<in> set steps then rename_row else id)
        (filter (\<lambda>r. \<forall>s \<in> set steps. keeps s r) (apply_step s df))"
    by (simp add: Cons.IH)
  show ?case
  proof (cases "s = RenameCategory")
    case True
    have "filter (\<lambda>r. \<forall>s \<in> set steps. keeps s r) (map rename_row df)
        = map rename_row (filter (\<lambda>r. \<forall>s \<in> set steps. keeps s r) df)"
      by (simp add: filter_map comp_def keeps_rename_row)
    then show ?thesis
      unfolding step apply_step_eq [of s] using True
      by (simp add: comp_def rename_row_idem)
  next
    case False
    have "filter (\<lambda>r. \<forall>s \<in> set steps. keeps s r) (filter (keeps s) df)
        = filter (\<lambda>r. keeps s r \<and> (\<forall>s \<in> set steps. keeps s r)) df"
      by (simp add: conj_commute)
    then show ?thesis
      unfolding step apply_step_eq [of s] using False by simp
  qed
qed

lemma fold_apply_step_set:
  assumes "set steps = set steps'"
  shows "fold apply_step steps df = fold apply_step steps' df"
  by (simp add: fold_apply_step assms)

lemma implemented_order_eq:
  "clean_in_order implemented_order to_datetime raw = load_and_clean_hours to_datetime raw"
proof (induction raw)
  case Nil
  then show ?case
    by (simp add: clean_in_order_def implemented_order_def parse_frame_def finish_frame_def
        load_and_clean_hours_def List.map_filter_simps)
next
  case (Cons r raw)
  then show ?case
    by (cases "Option.bind (raw_DateVolunteered r) to_datetime")
       (simp_all add: clean_in_order_def implemented_order_def parse_frame_def finish_frame_def
        load_and_clean_hours_def List.map_filter_simps Let_def)
qed


text \<open>
  Claim C6. Every record of the cleaned table comes from a row of the log whose date
  parsed (the record carries the parsed timestamp, and its year is the year of that
  timestamp), has hours present and at most 16, a year other than 2016, and a subcategory
  other than "Holiday & Seasonal Meal Programs".
\<close>

theorem cleaning_invariant:
  "\<forall>r \<in> set (load_and_clean_hours to_datetime raw).
     (\<exists>x \<in> set raw. \<exists>s. raw_DateVolunteered x = Some s
          \<and> to_datetime s = Some (DateVolunteered r)
          \<and> DatabaseUserId x = Volunteer_ID r \<and> HoursWorked x = Hours r
          \<and> EventSubcategory x = SubCategory r)
     \<and> Year r = dt_year (DateVolunteered r)
     \<and> (\<exists>h. Hours r = Some h \<and> h \<le> 16)
     \<and> Year r \<noteq> 2016
     \<and> SubCategory r \<noteq> Some ''Holiday & Seasonal Meal Programs''"
proof
  fix r assume "r \<in> set (load_and_clean_hours to_datetime raw)"
  then obtain x t where x: "x \<in> set raw"
    and t: "Option.bind (raw_DateVolunteered x) to_datetime = Some t"
    and r: "r = \<lparr>Volunteer_ID = DatabaseUserId x, DateVolunteered = t, Year = dt_year t,
                  Month = dt_month_name t, Season = SEASONS (dt_quarter t),
                  Category = replace_category (FinalCategory x),
                  SubCategory = EventSubcategory x, Hours = HoursWorked x\<rparr>"
    and y: "Year r \<noteq> 2016" and h: "hours_at_most_16 (Hours r)"
    and c: "SubCategory r \<noteq> Some ''Holiday & Seasonal Meal Programs''"
    by (auto simp: load_and_clean_hours_def Let_def set_map_filter_Some)
  from t obtain s where s: "raw_DateVolunteered x = Some s" "to_datetime s = Some t"
    by (auto simp: bind_eq_Some_conv)
  from h have "\<exists>h. Hours r = Some h \<and> h \<le> 16"
    by (cases "Hours r") (simp_all add: hours_at_most_16_def)
  moreover have "\<exists>x \<in> set raw. \<exists>s. raw_DateVolunteered x = Some s
          \<and> to_datetime s = Some (DateVolunteered r)
          \<and> DatabaseUserId x = Volunteer_ID r \<and> HoursWorked x = Hours r
          \<and> EventSubcategory x = SubCategory r"
    using x s r by auto
  moreover have "Year r = dt_year (DateVolunteered r)" using r by simp
  ultimately show "(\<exists>x \<in> set raw. \<exists>s. raw_DateVolunteered x = Some s
          \<and> to_datetime s = Some (DateVolunteered r)
          \<and> DatabaseUserId x = Volunteer_ID r \<and> HoursWorked x = Hours r
          \<and> EventSubcategory x = SubCategory r)
     \<and> Year r = dt_year (DateVolunteered r)
     \<and> (\<exists>h. Hours r = Some h \<and> h \<le> 16)
     \<and> Year r \<noteq> 2016
     \<and> SubCategory r \<noteq> Some ''Holiday & Seasonal Meal Programs''"
    using y c by blast
qed

theorem cleaning_invariant_witness:
  "load_and_clean_hours messy_to_datetime messy_log =
     [\<lparr>Volunteer_ID = Some 1, DateVolunteered = 1673341200, Year = 2023,
       Month = ''January'', Season = Some ''Winter'', Category = Some ''Market/Warehouse'',
       SubCategory = None, Hours = Some 4\<rparr>]
   \<and> dt_year 1673341200 = 2023
   \<and> (\<exists>x \<in> set messy_log. \<exists>s. raw_DateVolunteered x = Some s
         \<and> messy_to_datetime s = Some 1673341200)"
proof -
  have run: "load_and_clean_hours messy_to_datetime messy_log =
     [\<lparr>Volunteer_ID = Some 1, DateVolunteered = 1673341200, Year = 2023,
       Month = ''January'', Season = Some ''Winter'', Category = Some ''Market/Warehouse'',
       SubCategory = None, Hours = Some 4\<rparr>]"
    by code_simp
  show ?thesis
    using cleaning_invariant [of messy_to_datetime messy_log] unfolding run by auto
qed

text \<open>
  Claim C7. The five cleaning steps (drop the rows without a date, drop the year 2016, drop
  hours above 16, drop the excluded subcategory, rename the misspelt category), applied in
  any order, give the table that the implemented order gives: the same rows, in the same
  order.
\<close>

theorem cleaning_steps_commute:
  assumes "mset steps = mset implemented_order"
  shows "clean_in_order steps to_datetime raw = load_and_clean_hours to_datetime raw"
proof -
  from assms have "set steps = set implemented_order" by (rule mset_eq_setD)
  then have "fold apply_step steps (parse_frame to_datetime raw)
      = fold apply_step implemented_order (parse_frame to_datetime raw)"
    by (rule fold_apply_step_set)
  then have "clean_in_order steps to_datetime raw
      = clean_in_order implemented_order to_datetime raw"
    by (simp add: clean_in_order_def)
  then show ?thesis by (simp add: implemented_order_eq)
qed

theorem cleaning_steps_commute_witness:
  "mset [DropExcludedSubcategory, DropLongHours, DropYear2016, RenameCategory, DropNullDates]
     = mset implemented_order
   \<and> clean_in_order
       [DropExcludedSubcategory, DropLongHours, DropYear2016, RenameCategory, DropNullDates]
       messy_to_datetime messy_log
     = load_and_clean_hours messy_to_datetime messy_log
   \<and> length (load_and_clean_hours messy_to_datetime messy_log) = 1
   \<and> length messy_log = 7"
proof -
  have p: "mset [DropExcludedSubcategory, DropLongHours, DropYear2016, RenameCategory,
      DropNullDates] = mset implemented_order"
    by (simp add: implemented_order_def)
  have "length (load_and_clean_hours messy_to_datetime messy_log) = 1"
    and "length messy_log = 7"
    by code_simp+
  with p cleaning_steps_commute [OF p, of messy_to_datetime messy_log]
  show ?thesis by simp
qed

section \<open>Properties of the profile normalisation\<close>

subsection \<open>City names\<close>

lemma rstrip_Cons:
  "rev (dropWhile P (rev (x # xs))) =
     (if rev (dropWhile P (rev xs)) = [] \<and> P x then [] else x # rev (dropWhile P (rev xs)))"
  by (auto simp: dropWhile_append dropWhile_eq_Nil_conv)

lemma str_strip_keeps3:
  assumes "\<not> is_space a" and "\<not> is_space c"
  shows "\<exists>zs. str_strip (a # b # c # ys) = a # b # c # zs"
proof -
  have "str_strip (a # b # c # ys) = rev (dropWhile is_space (rev (a # b # c # ys)))"
    using assms(1) by (simp add: str_strip_def)
  also have "\<dots> = a # b # c # rev (dropWhile is_space (rev ys))"
    using assms(2) by (simp only: rstrip_Cons) simp
  finally show ?thesis by blast
qed

lemma str_replace_keeps3:
  assumes "\<not> prefix old (a # b # c # ys)" and "\<not> prefix old (b # c # ys)"
    and "\<not> prefix old (c # ys)"
  shows "\<exists>zs. str_replace old new (a # b # c # ys) = a # b # c # zs"
  using assms by simp

lemma not_space_mis: "\<not> is_space CHR ''m''" "\<not> is_space CHR ''s''"
  by (simp_all add: is_space_def)

lemma prefix_mis_iff: "prefix ''mis'' s \<longleftrightarrow> (\<exists>ys. s = CHR ''m'' # CHR ''i'' # CHR ''s'' # ys)"
  by (auto simp: prefix_def)

lemma strip_suffix_step_mis:
  assumes "prefix ''mis'' s" and "suf \<in> set city_suffixes"
  shows "prefix ''mis'' (strip_suffix_step suf s)"
proof -
  from assms(1) obtain ys where s: "s = CHR ''m'' # CHR ''i'' # CHR ''s'' # ys"
    by (auto simp: prefix_mis_iff)
  from assms(2) obtain t where suf: "suf = CHR '' '' # t"
    by (auto simp: city_suffixes_def)
  have "\<exists>zs. str_replace suf [] s = CHR ''m'' # CHR ''i'' # CHR ''s'' # zs"
    unfolding s by (rule str_replace_keeps3) (simp_all add: suf)
  then obtain zs where "str_replace suf [] s = CHR ''m'' # CHR ''i'' # CHR ''s'' # zs" ..
  with str_strip_keeps3 [OF not_space_mis, of "CHR ''i''" zs]
  have "prefix ''mis'' (str_strip (str_replace suf [] s))"
    by (auto simp: prefix_mis_iff)
  with assms(1) show ?thesis by (simp add: strip_suffix_step_def)
qed

lemma fold_strip_suffix_mis:
  assumes "prefix ''mis'' s" and "set sufs \<subseteq> set city_suffixes"
  shows "prefix ''mis'' (fold strip_suffix_step sufs s)"
  using assms
  by (induction sufs arbitrary: s) (simp_all add: strip_suffix_step_mis)

lemma city_key_mis:
  assumes "prefix ''mis'' (str_lower (str_strip text))"
  shows "prefix ''mis'' (city_key text)"
proof -
  let ?s = "str_lower (str_strip text)"
  from assms obtain ys where s: "?s = CHR ''m'' # CHR ''i'' # CHR ''s'' # ys"
    by (auto simp: prefix_mis_iff)
  have "takeWhile (\<lambda>c. c \<noteq> CHR '','') ?s
      = CHR ''m'' # CHR ''i'' # CHR ''s'' # takeWhile (\<lambda>c. c \<noteq> CHR '','') ys"
    unfolding s by simp
  with str_strip_keeps3 [OF not_space_mis, of "CHR ''i''" "takeWhile (\<lambda>c. c \<noteq> CHR '','') ys"]
  have "prefix ''mis'' (str_strip (takeWhile (\<lambda>c. c \<noteq> CHR '','') ?s))"
    by (auto simp: prefix_mis_iff)
  with assms have "prefix ''mis''
      (if str_contains '','' ?s then str_strip (takeWhile (\<lambda>c. c \<noteq> CHR '','') ?s) else ?s)"
    by simp
  then show ?thesis
    unfolding city_key_def Let_def by (rule fold_strip_suffix_mis) simp
qed

text \<open>
  The mapping rules of \<open>clean_city\<close> on the key the source computes: a key starting with
  "mis" gives Mississauga before the table is consulted, a key of the table gives its
  canonical name, any other key is title-cased. A city text that starts with "mis" in any
  letter case, after surrounding blanks are stripped, gives Mississauga.
\<close>

lemma clean_city_rules:
  "clean_city CNull = CNull
   \<and> (city \<noteq> CNull \<longrightarrow>
        (prefix ''mis'' (city_key (py_str city)) \<longrightarrow> clean_city city = CStr ''Mississauga'')
      \<and> (\<not> prefix ''mis'' (city_key (py_str city)) \<longrightarrow>
           (\<forall>canonical. map_of CITY_CANONICAL_MAP (city_key (py_str city)) = Some canonical
              \<longrightarrow> clean_city city = CStr canonical)
         \<and> (map_of CITY_CANONICAL_MAP (city_key (py_str city)) = None
              \<longrightarrow> clean_city city = CStr (str_title (city_key (py_str city))))))
   \<and> (prefix ''mis'' (str_lower (str_strip text)) \<longrightarrow> clean_city (CStr text) = CStr ''Mississauga'')
   \<and> clean_city (CStr ''  Missisauga, ON'') = CStr ''Mississauga''
   \<and> clean_city (CStr ''MIS-Town'') = CStr ''Mississauga''"
proof -
  have a: "clean_city CNull = CNull" by (simp add: clean_city_def)
  have b: "city \<noteq> CNull \<longrightarrow>
        (prefix ''mis'' (city_key (py_str city)) \<longrightarrow> clean_city city = CStr ''Mississauga'')
      \<and> (\<not> prefix ''mis'' (city_key (py_str city)) \<longrightarrow>
           (\<forall>canonical. map_of CITY_CANONICAL_MAP (city_key (py_str city)) = Some canonical
              \<longrightarrow> clean_city city = CStr canonical)
         \<and> (map_of CITY_CANONICAL_MAP (city_key (py_str city)) = None
              \<longrightarrow> clean_city city = CStr (str_title (city_key (py_str city)))))"
    by (simp add: clean_city_def Let_def)
  have c: "prefix ''mis'' (str_lower (str_strip text)) \<longrightarrow>
      clean_city (CStr text) = CStr ''Mississauga''"
    using city_key_mis [of "text"] by (simp add: clean_city_def Let_def)
  have e: "clean_city (CStr ''  Missisauga, ON'') = CStr ''Mississauga''"
    and f: "clean_city (CStr ''MIS-Town'') = CStr ''Mississauga''"
    by code_simp+
  from a b c e f show ?thesis by (intro conjI)
qed

text \<open>
  Claim C9 holds in its mapping rules and in both of its examples (see \<open>clean_city_rules\<close>),
  and fails in the step before them: the source tests that the text ends with a suffix and
  then calls \<^verbatim>\<open>s.replace(suffix, "")\<close>, which removes every occurrence of the suffix, not the
  trailing one only. For "Niagara on the Lake ON" the unmapped value that remains after
  stripping the trailing province suffix is "niagara on the lake", whose title case is
  "Niagara On The Lake"; the source returns "Niagara The Lake".
\<close>

theorem clean_city_inner_suffix:
  "clean_city (CStr ''Niagara on the Lake ON'') = CStr ''Niagara The Lake''
   \<and> city_key ''Niagara on the Lake ON'' = ''niagara the lake''
   \<and> city_key_trailing_only ''Niagara on the Lake ON'' = ''niagara on the lake''
   \<and> map_of CITY_CANONICAL_MAP ''niagara on the lake'' = None
   \<and> str_title ''niagara on the lake'' = ''Niagara On The Lake''"
  by code_simp

subsection \<open>Missing columns\<close>

lemma select_present_keys:
  "fst ` set (select_present cols df) \<subseteq> fst ` set df"
proof
  fix c assume "c \<in> fst ` set (select_present cols df)"
  then obtain vs where "map_of df c = Some vs"
    by (auto simp: select_present_def set_map_filter_Some)
  then have "(c, vs) \<in> set df" by (rule map_of_SomeD)
  then show "c \<in> fst ` set df" by force
qed

lemma normalize_profiles_missing_city:
  assumes "''City'' \<notin> fst ` set (rename_columns vol_renames df)"
  shows "normalize_profiles df = Inl (KeyError ''City'')"
proof -
  from assms select_present_keys
  have "''City'' \<notin> fst ` set (select_present vol_cols (rename_columns vol_renames df))"
    by blast
  then have "map_of (select_present vol_cols (rename_columns vol_renames df)) ''City'' = None"
    by (simp add: map_of_eq_None_iff)
  then show ?thesis
    by (simp add: normalize_profiles_def Let_def getitem_def)
qed

text \<open>
  Claim C4 fails on the code: the projection keeps whichever recognised columns are
  present, but the three lines after it read the columns City, VolunteerStatus and
  PostalCode unconditionally. A profile table without one of them raises \<^verbatim>\<open>KeyError\<close>;
  a table that has these three and lacks the other optional columns is normalised.
\<close>

theorem missing_city_column_raises:
  "normalize_profiles profile_without_city = Inl (KeyError ''City'')
   \<and> merge_volunteer_data [example_shift 1 2023 1 10 0 4] profile_without_city
       = Inl (KeyError ''City'')
   \<and> normalize_profiles [(''DatabaseUserId'', [CInt 1])] = Inl (KeyError ''City'')
   \<and> normalize_profiles
        [(''DatabaseUserId'', [CInt 1]), (''City'', [CStr ''Oakville'']),
         (''VolunteerStatus'', [CStr ''Accepted''])] = Inl (KeyError ''PostalCode'')
   \<and> normalize_profiles
        [(''DatabaseUserId'', [CInt 1]), (''City'', [CStr ''Oakville'']),
         (''PostalCode'', [CStr ''L6H 1A1''])] = Inl (KeyError ''VolunteerStatus'')
   \<and> normalize_profiles
        [(''DatabaseUserId'', [CInt 1]), (''City'', [CStr ''Oakville'']),
         (''PostalCode'', [CStr ''L6H 1A1'']), (''VolunteerStatus'', [CStr ''Accepted''])]
       = Inr [(''Volunteer ID'', [CInt 1]), (''City'', [CStr ''Oakville'']),
              (''PostalCode'', [CStr ''L6H 1A1'']), (''VolunteerStatus'', [CStr ''Accepted'']),
              (''FSA'', [CStr ''L6H''])]"
  by code_simp

subsection \<open>The language column\<close>

lemma str_contains_set: "str_contains sub s \<Longrightarrow> set sub \<subseteq> set s"
proof (induction s)
  case Nil
  then show ?case by simp
next
  case (Cons c cs)
  from Cons.prems have "prefix sub (c # cs) \<or> str_contains sub cs" by simp
  then show ?case
  proof
    assume "prefix sub (c # cs)"
    then show ?thesis by (rule set_mono_prefix)
  next
    assume "str_contains sub cs"
    with Cons.IH show ?thesis by auto
  qed
qed

lemma str_strip_Nil: "str_strip s = [] \<Longrightarrow> \<forall>c \<in> set s. is_space c"
proof -
  assume "str_strip s = []"
  then have "dropWhile is_space (rev (dropWhile is_space s)) = []"
    by (simp add: str_strip_def)
  then have all: "\<forall>c \<in> set (dropWhile is_space s). is_space c"
    by (simp add: dropWhile_eq_Nil_conv)
  have "dropWhile is_space s = []"
  proof (rule ccontr)
    assume "dropWhile is_space s \<noteq> []"
    then have "\<not> is_space (hd (dropWhile is_space s))" by (rule hd_dropWhile)
    moreover have "hd (dropWhile is_space s) \<in> set (dropWhile is_space s)"
      using \<open>dropWhile is_space s \<noteq> []\<close> by simp
    ultimately show False using all by blast
  qed
  then show ?thesis by (simp add: dropWhile_eq_Nil_conv)
qed

lemma space_to_lower: "is_space c \<Longrightarrow> to_lower c \<noteq> CHR ''e''"
  by (auto simp: is_space_def to_lower_def is_upper_def)

lemma blank_has_no_english:
  assumes "str_strip s = []"
  shows "\<not> str_contains ''english'' (str_lower s)"
proof
  assume "str_contains ''english'' (str_lower s)"
  then have "CHR ''e'' \<in> set (str_lower s)" using str_contains_set by fastforce
  then obtain c where "c \<in> set s" "to_lower c = CHR ''e''" by (auto simp: str_lower_def)
  with str_strip_Nil [OF assms] space_to_lower show False by blast
qed

text \<open>
  \<open>classify_language\<close> itself follows the rule of the specification: Multilingual exactly
  when the text mentions English and has a separator, English only exactly when it mentions
  English and has none, Other/Unknown exactly when it does not mention English, which
  covers the empty text.
\<close>

lemma classify_language_rules:
  "(classify_language s = ''Multilingual'' \<longleftrightarrow> mentions_english s \<and> has_separator s)
   \<and> (classify_language s = ''English only'' \<longleftrightarrow> mentions_english s \<and> \<not> has_separator s)
   \<and> (classify_language s = ''Other/Unknown'' \<longleftrightarrow> \<not> mentions_english s)
   \<and> classify_language [] = ''Other/Unknown''"
proof (cases "str_strip s = []")
  case True
  then have "\<not> mentions_english s" by (simp add: mentions_english_def blank_has_no_english)
  moreover have "classify_language s = ''Other/Unknown''"
    using True by (simp add: classify_language_def)
  moreover have "classify_language [] = ''Other/Unknown''"
    by (simp add: classify_language_def str_strip_def)
  ultimately show ?thesis by simp
next
  case False
  have "classify_language [] = ''Other/Unknown''"
    by (simp add: classify_language_def str_strip_def)
  then show ?thesis
    using False by (simp add: classify_language_def Let_def mentions_english_def has_separator_def)
qed

text \<open>
  Claim C5 fails on the code: \<^verbatim>\<open>merge_volunteer_data\<close> applies the helpers for the city,
  the status and the postal code, and never calls \<open>classify_language\<close>. The language
  column of the merged output holds the text of the file, here "English, French", which is
  none of the three classes; the helper would have given Multilingual.
\<close>

theorem language_not_classified:
  "merge_volunteer_data [example_shift 1 2023 1 10 0 4] profile_with_language =
     Inr [(example_shift 1 2023 1 10 0 4,
           [(''City'', CStr ''Toronto''), (''PostalCode'', CStr ''m5v 2t6''),
            (''VolunteerStatus'', CStr ''Accepted''), (''Language'', CStr ''English, French''),
            (''FSA'', CStr ''M5V'')])]
   \<and> classify_language ''English, French'' = ''Multilingual''
   \<and> ''English, French'' \<notin> set [''Multilingual'', ''English only'', ''Other/Unknown'']"
  by code_simp

end
